theory Spec2Isabelle
  imports Main
begin

section \<open>Packets and the object heap\<close>

text \<open>
  The three stores of \<^verbatim>\<open>aprsd.packets\<close> keep references to packet objects, and
  \<^verbatim>\<open>PacketTrack.tx\<close> assigns to an attribute of the packet it is handed. Packets are
  therefore objects on an explicit heap: a store holds references, and a method reads and
  writes the attributes of a packet through the heap.
\<close>

datatype py_error = KeyError | TypeError string | OtherError string

text \<open>
  Modelled from the spec: the module \<^verbatim>\<open>aprsd.packets.core\<close> with the packet classes is
  not part of the sources at hand. A packet carries the attributes the stores read
  (\<^verbatim>\<open>key\<close>, \<^verbatim>\<open>msgNo\<close>, \<^verbatim>\<open>ackMsgNo\<close>, \<^verbatim>\<open>send_count\<close>, \<^verbatim>\<open>retry_count\<close>,
  \<^verbatim>\<open>last_send_time\<close>, \<^verbatim>\<open>raw\<close>) and its class, which is \<^verbatim>\<open>AckPacket\<close>,
  \<^verbatim>\<open>RejectPacket\<close> or any other class, given by its name.
\<close>

datatype packet_class = AckPacket | RejectPacket | OtherPacket string

fun class_name :: "packet_class \<Rightarrow> string" where
  "class_name AckPacket = ''AckPacket''"
| "class_name RejectPacket = ''RejectPacket''"
| "class_name (OtherPacket n) = n"

text \<open>A message number is \<^verbatim>\<open>None\<close> or a string.\<close>

type_synonym msg_no = "string option"

record packet =
  pclass :: packet_class
  key :: string
  msgNo :: msg_no
  ackMsgNo :: msg_no
  send_count :: int
  retry_count :: int
  last_send_time :: int
  raw :: string

type_synonym ref = nat
type_synonym heap = "ref \<Rightarrow> packet"

text \<open>Python's truth value of a message number: \<^verbatim>\<open>None\<close> and the empty string are falsy.\<close>

fun truthy :: "msg_no \<Rightarrow> bool" where
  "truthy None = False"
| "truthy (Some s) = (s \<noteq> [])"

section \<open>OrderedDict\<close>

text \<open>
  An \<^verbatim>\<open>OrderedDict\<close> is the list of its items, oldest first. \<^verbatim>\<open>move_to_end\<close> and
  \<^verbatim>\<open>popitem\<close> raise \<^verbatim>\<open>KeyError\<close> on an absent key and on an empty dictionary;
  assigning to a key replaces the value in place when the key is present and appends the
  item otherwise.
\<close>

type_synonym ('k, 'v) ordered_dict = "('k \<times> 'v) list"

definition od_contains :: "'k \<Rightarrow> ('k, 'v) ordered_dict \<Rightarrow> bool" where
  "od_contains k d = (k \<in> set (map fst d))"

definition move_to_end :: "'k \<Rightarrow> ('k, 'v) ordered_dict \<Rightarrow> py_error + ('k, 'v) ordered_dict" where
  "move_to_end k d =
     (case map_of d k of
        None \<Rightarrow> Inl KeyError
      | Some v \<Rightarrow> Inr (filter (\<lambda>e. fst e \<noteq> k) d @ [(k, v)]))"

definition popitem_first ::
  "('k, 'v) ordered_dict \<Rightarrow> py_error + (('k \<times> 'v) \<times> ('k, 'v) ordered_dict)" where
  "popitem_first d = (case d of [] \<Rightarrow> Inl KeyError | e # d' \<Rightarrow> Inr (e, d'))"

primrec setitem :: "'k \<Rightarrow> 'v \<Rightarrow> ('k, 'v) ordered_dict \<Rightarrow> ('k, 'v) ordered_dict" where
  "setitem k v [] = [(k, v)]"
| "setitem k v (e # d) = (if fst e = k then (k, v) # d else e # setitem k v d)"

section \<open>PacketList\<close>

text \<open>
  \<^verbatim>\<open>data["types"]\<close> maps a class name to its counters \<^verbatim>\<open>{"tx": n, "rx": m}\<close>;
  \<^verbatim>\<open>data["packets"]\<close> is the ordered dictionary from packet key to packet.
\<close>

record type_counts =
  tx :: int
  rx :: int

record PacketList =
  total_rx :: int
  total_tx :: int
  maxlen :: int
  types :: "string \<rightharpoonup> type_counts"
  packets :: "(string, ref) ordered_dict"

text \<open>The singleton as \<^verbatim>\<open>__new__\<close> creates it.\<close>

definition PacketList_new :: PacketList where
  "PacketList_new =
     \<lparr>total_rx = 0, total_tx = 0, maxlen = 100, types = Map.empty, packets = []\<rparr>"

text \<open>
  A method that raises returns \<open>Inl (e, self')\<close>: the error and the store as the method
  left it.
\<close>

type_synonym 'a result = "(py_error \<times> 'a) + 'a"

definition PacketList__add :: "heap \<Rightarrow> PacketList \<Rightarrow> ref \<Rightarrow> PacketList result" where
  "PacketList__add h self packet =
     (let k = key (h packet) in
      if od_contains k (packets self) then
        (case move_to_end k (packets self) of
           Inl e \<Rightarrow> Inl (e, self)
         | Inr d \<Rightarrow> Inr (self\<lparr>packets := setitem k packet d\<rparr>))
      else if int (length (packets self)) = maxlen self then
        (case popitem_first (packets self) of
           Inl e \<Rightarrow> Inl (e, self)
         | Inr (_, d) \<Rightarrow> Inr (self\<lparr>packets := setitem k packet d\<rparr>))
      else Inr (self\<lparr>packets := setitem k packet (packets self)\<rparr>))"

text \<open>
  The counter update of \<^verbatim>\<open>rx\<close> and \<^verbatim>\<open>tx\<close>: create the record of the class on first
  sight, then add one to its \<^verbatim>\<open>"rx"\<close> or \<^verbatim>\<open>"tx"\<close> entry. The last statement of
  both methods, \<^verbatim>\<open>SeenList().update_seen(packet)\<close>, works on an object of another module
  and on nothing of this store; it is not part of the model.
\<close>

definition ensure_type :: "(string \<rightharpoonup> type_counts) \<Rightarrow> string \<Rightarrow> (string \<rightharpoonup> type_counts)" where
  "ensure_type ts ptype =
     (if ptype \<notin> dom ts then ts(ptype \<mapsto> \<lparr>tx = 0, rx = 0\<rparr>) else ts)"

definition PacketList_rx :: "heap \<Rightarrow> PacketList \<Rightarrow> ref \<Rightarrow> PacketList result" where
  "PacketList_rx h self packet =
     (let self1 = self\<lparr>total_rx := total_rx self + 1\<rparr> in
      case PacketList__add h self1 packet of
        Inl err \<Rightarrow> Inl err
      | Inr self2 \<Rightarrow>
          (let ptype = class_name (pclass (h packet));
               ts = ensure_type (types self2) ptype
           in case ts ptype of
                None \<Rightarrow> Inl (KeyError, self2\<lparr>types := ts\<rparr>)
              | Some c \<Rightarrow> Inr (self2\<lparr>types := ts(ptype \<mapsto> c\<lparr>rx := rx c + 1\<rparr>)\<rparr>)))"

definition PacketList_tx :: "heap \<Rightarrow> PacketList \<Rightarrow> ref \<Rightarrow> PacketList result" where
  "PacketList_tx h self packet =
     (let self1 = self\<lparr>total_tx := total_tx self + 1\<rparr> in
      case PacketList__add h self1 packet of
        Inl err \<Rightarrow> Inl err
      | Inr self2 \<Rightarrow>
          (let ptype = class_name (pclass (h packet));
               ts = ensure_type (types self2) ptype
           in case ts ptype of
                None \<Rightarrow> Inl (KeyError, self2\<lparr>types := ts\<rparr>)
              | Some c \<Rightarrow> Inr (self2\<lparr>types := ts(ptype \<mapsto> c\<lparr>tx := tx c + 1\<rparr>)\<rparr>)))"

definition PacketList_add :: "heap \<Rightarrow> PacketList \<Rightarrow> ref \<Rightarrow> PacketList result" where
  "PacketList_add h self packet = PacketList__add h self packet"

definition PacketList_find :: "heap \<Rightarrow> PacketList \<Rightarrow> ref \<Rightarrow> py_error + ref" where
  "PacketList_find h self packet =
     (case map_of (packets self) (key (h packet)) of
        None \<Rightarrow> Inl KeyError
      | Some p \<Rightarrow> Inr p)"

definition PacketList_len :: "PacketList \<Rightarrow> int" where
  "PacketList_len self = int (length (packets self))"

record PacketList_stats_dict =
  st_total_tracked :: int
  st_rx :: int
  st_tx :: int
  st_types :: "string \<rightharpoonup> type_counts"
  st_packets :: "(string, ref) ordered_dict"

definition PacketList_stats :: "PacketList \<Rightarrow> PacketList_stats_dict" where
  "PacketList_stats self =
     \<lparr>st_total_tracked = total_rx self + total_rx self,
      st_rx = total_rx self,
      st_tx = total_tx self,
      st_types = types self,
      st_packets = packets self\<rparr>"

text \<open>A sequence of calls on the store; it ends at the first call that raises.\<close>

datatype call = Rx ref | Tx ref | Add ref

fun call_packet :: "call \<Rightarrow> ref" where
  "call_packet (Rx p) = p"
| "call_packet (Tx p) = p"
| "call_packet (Add p) = p"

fun PacketList_call :: "heap \<Rightarrow> PacketList \<Rightarrow> call \<Rightarrow> PacketList result" where
  "PacketList_call h self (Rx p) = PacketList_rx h self p"
| "PacketList_call h self (Tx p) = PacketList_tx h self p"
| "PacketList_call h self (Add p) = PacketList_add h self p"

fun PacketList_calls :: "heap \<Rightarrow> PacketList \<Rightarrow> call list \<Rightarrow> PacketList result" where
  "PacketList_calls h self [] = Inr self"
| "PacketList_calls h self (c # cs) =
     (case PacketList_call h self c of
        Inl err \<Rightarrow> Inl err
      | Inr self' \<Rightarrow> PacketList_calls h self' cs)"

text \<open>The cache key of the packet a call hands over, and the cache item it makes.\<close>

definition call_key :: "heap \<Rightarrow> call \<Rightarrow> string" where
  "call_key h c = key (h (call_packet c))"

definition call_item :: "heap \<Rightarrow> call \<Rightarrow> string \<times> ref" where
  "call_item h c = (call_key h c, call_packet c)"

text \<open>The packets handed to \<^verbatim>\<open>rx\<close> and to \<^verbatim>\<open>tx\<close> in a sequence of calls, in order.\<close>

fun rx_args :: "call list \<Rightarrow> ref list" where
  "rx_args [] = []"
| "rx_args (Rx p # cs) = p # rx_args cs"
| "rx_args (c # cs) = rx_args cs"

fun tx_args :: "call list \<Rightarrow> ref list" where
  "tx_args [] = []"
| "tx_args (Tx p # cs) = p # tx_args cs"
| "tx_args (c # cs) = tx_args cs"

text \<open>The store a call leaves behind, whether it returned or raised.\<close>

fun store_after :: "'a result \<Rightarrow> 'a" where
  "store_after (Inl (e, s)) = s"
| "store_after (Inr s) = s"

definition ptype_of :: "heap \<Rightarrow> ref \<Rightarrow> string" where
  "ptype_of h p = class_name (pclass (h p))"

definition count_type :: "heap \<Rightarrow> string \<Rightarrow> ref list \<Rightarrow> int" where
  "count_type h T ps = int (length (filter (\<lambda>p. ptype_of h p = T) ps))"

text \<open>The counters of a class name, both zero while it has no record.\<close>

definition counter_of :: "(string \<rightharpoonup> type_counts) \<Rightarrow> string \<Rightarrow> type_counts" where
  "counter_of ts T = (case ts T of None \<Rightarrow> \<lparr>tx = 0, rx = 0\<rparr> | Some c \<Rightarrow> c)"

section \<open>PacketTrack\<close>

text \<open>
  \<^verbatim>\<open>data\<close> maps a message number to the packet in flight. \<^verbatim>\<open>del d[k]\<close> raises
  \<^verbatim>\<open>KeyError\<close> on an absent key; \<^verbatim>\<open>_remove\<close> catches exactly that error.
\<close>

record PacketTrack =
  data :: "msg_no \<rightharpoonup> ref"
  total_tracked :: int

text \<open>
  The tracker at start: the class attributes \<^verbatim>\<open>data = {}\<close> and \<^verbatim>\<open>total_tracked = 0\<close>.
  (\<^verbatim>\<open>__new__\<close> also calls \<^verbatim>\<open>_init_store\<close> of the mixin \<^verbatim>\<open>ObjectStoreMixin\<close>, a
  class of \<^verbatim>\<open>aprsd.utils.objectstore\<close> that is not among the sources; it is taken to load
  nothing.)
\<close>

definition PacketTrack_new :: PacketTrack where
  "PacketTrack_new = \<lparr>data = Map.empty, total_tracked = 0\<rparr>"

definition dict_del :: "('k \<rightharpoonup> 'v) \<Rightarrow> 'k \<Rightarrow> py_error + ('k \<rightharpoonup> 'v)" where
  "dict_del d k = (if k \<in> dom d then Inr (d(k := None)) else Inl KeyError)"

definition PacketTrack__remove :: "PacketTrack \<Rightarrow> msg_no \<Rightarrow> PacketTrack result" where
  "PacketTrack__remove self k =
     (case dict_del (data self) k of
        Inr d \<Rightarrow> Inr (self\<lparr>data := d\<rparr>)
      | Inl KeyError \<Rightarrow> Inr self
      | Inl e \<Rightarrow> Inl (e, self))"

definition PacketTrack_rx :: "heap \<Rightarrow> PacketTrack \<Rightarrow> ref \<Rightarrow> PacketTrack result" where
  "PacketTrack_rx h self packet =
     (if pclass (h packet) = AckPacket then PacketTrack__remove self (msgNo (h packet))
      else if pclass (h packet) = RejectPacket then PacketTrack__remove self (msgNo (h packet))
      else if truthy (ackMsgNo (h packet)) then PacketTrack__remove self (ackMsgNo (h packet))
      else Inr self)"

text \<open>\<^verbatim>\<open>tx\<close> writes \<^verbatim>\<open>send_count\<close> of the packet object: it returns the new heap too.\<close>

definition PacketTrack_tx :: "heap \<Rightarrow> PacketTrack \<Rightarrow> ref \<Rightarrow> heap \<times> PacketTrack" where
  "PacketTrack_tx h self packet =
     (let k = msgNo (h packet);
          h' = h(packet := (h packet)\<lparr>send_count := 0\<rparr>)
      in (h', self\<lparr>data := (data self)(k \<mapsto> packet),
                   total_tracked := total_tracked self + 1\<rparr>))"

text \<open>\<^verbatim>\<open>get\<close> returns the packet or \<^verbatim>\<open>None\<close>; \<^verbatim>\<open>__getitem__\<close> raises on an absent key.\<close>

definition PacketTrack_get :: "PacketTrack \<Rightarrow> msg_no \<Rightarrow> ref option" where
  "PacketTrack_get self k = data self k"

definition PacketTrack_getitem :: "PacketTrack \<Rightarrow> msg_no \<Rightarrow> py_error + ref" where
  "PacketTrack_getitem self name =
     (case data self name of None \<Rightarrow> Inl KeyError | Some p \<Rightarrow> Inr p)"

definition PacketTrack_remove :: "PacketTrack \<Rightarrow> msg_no \<Rightarrow> PacketTrack result" where
  "PacketTrack_remove self k = PacketTrack__remove self k"

record packet_stats =
  ps_last_send_time :: int
  ps_send_count :: int
  ps_retry_count :: int
  ps_message :: string

record PacketTrack_stats_dict =
  ts_total_tracked :: int
  ts_packets :: "msg_no \<rightharpoonup> packet_stats"

definition PacketTrack_stats :: "heap \<Rightarrow> PacketTrack \<Rightarrow> PacketTrack_stats_dict" where
  "PacketTrack_stats h self =
     \<lparr>ts_total_tracked = total_tracked self,
      ts_packets = (\<lambda>k. case data self k of
                          None \<Rightarrow> None
                        | Some p \<Rightarrow> Some \<lparr>ps_last_send_time = last_send_time (h p),
                                           ps_send_count = send_count (h p),
                                           ps_retry_count = retry_count (h p),
                                           ps_message = raw (h p)\<rparr>)\<rparr>"

text \<open>
  The public operations of the tracker as calls on the pair of heap and tracker. The
  accessors \<^verbatim>\<open>get\<close>, \<^verbatim>\<open>__getitem__\<close>, \<^verbatim>\<open>stats\<close>, \<^verbatim>\<open>__len__\<close>,
  \<^verbatim>\<open>__iter__\<close>, \<^verbatim>\<open>keys\<close>, \<^verbatim>\<open>items\<close> and \<^verbatim>\<open>values\<close> only read.
\<close>

datatype tcall =
    TRx ref | TTx ref | TRemove msg_no
  | TGet msg_no | TGetitem msg_no | TStats | TLen | TIter | TKeys | TItems | TValues

fun PacketTrack_call :: "heap \<times> PacketTrack \<Rightarrow> tcall \<Rightarrow> (heap \<times> PacketTrack) result" where
  "PacketTrack_call (h, self) (TRx p) =
     (case PacketTrack_rx h self p of
        Inl (e, self') \<Rightarrow> Inl (e, (h, self'))
      | Inr self' \<Rightarrow> Inr (h, self'))"
| "PacketTrack_call (h, self) (TTx p) = Inr (PacketTrack_tx h self p)"
| "PacketTrack_call (h, self) (TRemove k) =
     (case PacketTrack_remove self k of
        Inl (e, self') \<Rightarrow> Inl (e, (h, self'))
      | Inr self' \<Rightarrow> Inr (h, self'))"
| "PacketTrack_call (h, self) (TGet k) = Inr (h, self)"
| "PacketTrack_call (h, self) (TGetitem k) =
     (case PacketTrack_getitem self k of
        Inl e \<Rightarrow> Inl (e, (h, self))
      | Inr p \<Rightarrow> Inr (h, self))"
| "PacketTrack_call (h, self) TStats = Inr (h, self)"
| "PacketTrack_call (h, self) TLen = Inr (h, self)"
| "PacketTrack_call (h, self) TIter = Inr (h, self)"
| "PacketTrack_call (h, self) TKeys = Inr (h, self)"
| "PacketTrack_call (h, self) TItems = Inr (h, self)"
| "PacketTrack_call (h, self) TValues = Inr (h, self)"

text \<open>
  A sequence of calls. A raising call (only \<^verbatim>\<open>__getitem__\<close> can raise) is caught by
  the caller, and the sequence goes on from the state the call left.
\<close>

fun PacketTrack_calls :: "heap \<times> PacketTrack \<Rightarrow> tcall list \<Rightarrow> heap \<times> PacketTrack" where
  "PacketTrack_calls st [] = st"
| "PacketTrack_calls st (c # cs) = PacketTrack_calls (store_after (PacketTrack_call st c)) cs"

fun tracked_args :: "tcall list \<Rightarrow> ref list" where
  "tracked_args [] = []"
| "tracked_args (TTx p # cs) = p # tracked_args cs"
| "tracked_args (c # cs) = tracked_args cs"

section \<open>PacketCollector\<close>

text \<open>
  A registered monitor is a factory. The loop of \<^verbatim>\<open>rx\<close> (and of \<^verbatim>\<open>tx\<close>) calls the
  factory, tests the instance with \<^verbatim>\<open>isinstance\<close> against the runtime-checkable protocol
  \<^verbatim>\<open>PacketMonitor\<close>, that is, whether it has the attributes \<^verbatim>\<open>rx\<close> and \<^verbatim>\<open>tx\<close>, and
  calls the instance's method. Nothing in the loop catches an exception: one raised by the
  factory or by the monitor's method leaves the loop and the collector's call. A monitor
  is described by what the collector can observe of it: its name, whether calling the
  factory raises, which of the two attributes the instance has, and whether its
  \<^verbatim>\<open>rx\<close> and \<^verbatim>\<open>tx\<close> return or raise on a packet. A call of a monitor's method is
  recorded as an event of the trace when it is made.
\<close>

record monitor =
  mon_name :: string
  construct_raises :: "py_error option"
  has_rx :: bool
  has_tx :: bool
  rx_raises :: "ref \<Rightarrow> py_error option"
  tx_raises :: "ref \<Rightarrow> py_error option"

definition isinstance_PacketMonitor :: "monitor \<Rightarrow> bool" where
  "isinstance_PacketMonitor m = (has_rx m \<and> has_tx m)"

record PacketCollector =
  monitors :: "monitor list"

definition PacketCollector_new :: PacketCollector where
  "PacketCollector_new = \<lparr>monitors = []\<rparr>"

definition register :: "PacketCollector \<Rightarrow> monitor \<Rightarrow> PacketCollector" where
  "register self m = self\<lparr>monitors := monitors self @ [m]\<rparr>"

datatype event = Called_rx monitor ref | Called_tx monitor ref

definition not_a_monitor :: "monitor \<Rightarrow> py_error" where
  "not_a_monitor name = TypeError (''Monitor '' @ mon_name name @ '' is not a PacketMonitor'')"

fun rx_loop :: "monitor list \<Rightarrow> ref \<Rightarrow> event list \<Rightarrow> event list result" where
  "rx_loop [] packet tr = Inr tr"
| "rx_loop (name # rest) packet tr =
     (case construct_raises name of
        Some e \<Rightarrow> Inl (e, tr)
      | None \<Rightarrow>
          if isinstance_PacketMonitor name then
            (case rx_raises name packet of
               Some e \<Rightarrow> Inl (e, tr @ [Called_rx name packet])
             | None \<Rightarrow> rx_loop rest packet (tr @ [Called_rx name packet]))
          else Inl (not_a_monitor name, tr))"

fun tx_loop :: "monitor list \<Rightarrow> ref \<Rightarrow> event list \<Rightarrow> event list result" where
  "tx_loop [] packet tr = Inr tr"
| "tx_loop (name # rest) packet tr =
     (case construct_raises name of
        Some e \<Rightarrow> Inl (e, tr)
      | None \<Rightarrow>
          if isinstance_PacketMonitor name then
            (case tx_raises name packet of
               Some e \<Rightarrow> Inl (e, tr @ [Called_tx name packet])
             | None \<Rightarrow> tx_loop rest packet (tr @ [Called_tx name packet]))
          else Inl (not_a_monitor name, tr))"

text \<open>
  \<^verbatim>\<open>rx\<close> and \<^verbatim>\<open>tx\<close> of the collector, started on the trace so far; the result is
  the trace after the call, with the error when the call raised.
\<close>

definition PacketCollector_rx :: "PacketCollector \<Rightarrow> ref \<Rightarrow> event list \<Rightarrow> event list result" where
  "PacketCollector_rx self packet tr = rx_loop (monitors self) packet tr"

definition PacketCollector_tx :: "PacketCollector \<Rightarrow> ref \<Rightarrow> event list \<Rightarrow> event list result" where
  "PacketCollector_tx self packet tr = tx_loop (monitors self) packet tr"

text \<open>
  A monitor serves a packet on \<^verbatim>\<open>rx\<close> (on \<^verbatim>\<open>tx\<close>) when its factory returns an
  instance, the instance has both methods, and its \<^verbatim>\<open>rx\<close> (\<^verbatim>\<open>tx\<close>) returns on the
  packet.
\<close>

definition serves_rx :: "monitor \<Rightarrow> ref \<Rightarrow> bool" where
  "serves_rx m p =
     (construct_raises m = None \<and> isinstance_PacketMonitor m \<and> rx_raises m p = None)"

definition serves_tx :: "monitor \<Rightarrow> ref \<Rightarrow> bool" where
  "serves_tx m p =
     (construct_raises m = None \<and> isinstance_PacketMonitor m \<and> tx_raises m p = None)"

section \<open>Sample objects\<close>

text \<open>
  A heap to instantiate the theorems with: object \<open>r\<close> is a message packet whose key is
  \<open>r\<close> times the letter k and whose message number is \<open>r\<close> times the digit 1.
\<close>

definition sample_heap :: heap where
  "sample_heap r =
     \<lparr>pclass = OtherPacket ''MessagePacket'', key = replicate r CHR ''k'',
      msgNo = Some (replicate r CHR ''1''), ackMsgNo = None, send_count = 3,
      retry_count = 2, last_send_time = 1700000000, raw = ''hello''\<rparr>"

text \<open>
  The same heap with three more objects: 200 is an acknowledgment of message 111, 201 a
  rejection of message 111, and 202 a message packet with a piggyback acknowledgment of
  message 111. Object 3 of the heap is the message packet numbered 111.
\<close>

definition sample_heap_acks :: heap where
  "sample_heap_acks =
     sample_heap
       (200 := \<lparr>pclass = AckPacket, key = ''ack'', msgNo = Some ''111'', ackMsgNo = None,
                send_count = 0, retry_count = 0, last_send_time = 1700000001, raw = ''ack111''\<rparr>,
        201 := \<lparr>pclass = RejectPacket, key = ''rej'', msgNo = Some ''111'', ackMsgNo = None,
                send_count = 0, retry_count = 0, last_send_time = 1700000002, raw = ''rej111''\<rparr>,
        202 := \<lparr>pclass = OtherPacket ''MessagePacket'', key = ''msg'', msgNo = Some ''7'',
                ackMsgNo = Some ''111'', send_count = 0, retry_count = 0,
                last_send_time = 1700000003, raw = ''hi''\<rparr>)"

text \<open>
  Monitors: one that has both methods, which return; one whose instance has no
  \<^verbatim>\<open>tx\<close>; one that has both methods, each of which raises \<^verbatim>\<open>KeyError\<close>; and one whose
  factory raises.
\<close>

definition sample_monitor :: "string \<Rightarrow> monitor" where
  "sample_monitor n =
     \<lparr>mon_name = n, construct_raises = None, has_rx = True, has_tx = True,
      rx_raises = (\<lambda>p. None), tx_raises = (\<lambda>p. None)\<rparr>"

definition sample_broken :: monitor where
  "sample_broken =
     \<lparr>mon_name = ''Broken'', construct_raises = None, has_rx = True, has_tx = False,
      rx_raises = (\<lambda>p. None), tx_raises = (\<lambda>p. None)\<rparr>"

definition sample_raising :: monitor where
  "sample_raising =
     \<lparr>mon_name = ''Finder'', construct_raises = None, has_rx = True, has_tx = True,
      rx_raises = (\<lambda>p. Some KeyError), tx_raises = (\<lambda>p. Some KeyError)\<rparr>"

definition sample_unbuilt :: monitor where
  "sample_unbuilt =
     \<lparr>mon_name = ''Unbuilt'', construct_raises = Some (OtherError ''RuntimeError''),
      has_rx = True, has_tx = True, rx_raises = (\<lambda>p. None), tx_raises = (\<lambda>p. None)\<rparr>"

section \<open>Properties of the ordered dictionary\<close>

lemma fst_set_setitem: "fst ` set (setitem k v d) = insert k (fst ` set d)"
  by (induction d) auto

lemma length_setitem:
  "length (setitem k v d) = (if k \<in> fst ` set d then length d else Suc (length d))"
  by (induction d) auto

lemma setitem_absent: "k \<notin> fst ` set d \<Longrightarrow> setitem k v d = d @ [(k, v)]"
  by (induction d) auto

lemma setitem_last: "k \<notin> fst ` set d \<Longrightarrow> setitem k v (d @ [(k, w)]) = d @ [(k, v)]"
  by (induction d) auto

lemma distinct_setitem: "distinct (map fst d) \<Longrightarrow> distinct (map fst (setitem k v d))"
  by (induction d) (auto simp: fst_set_setitem)

lemma length_filter_key:
  "distinct (map fst d) \<Longrightarrow> k \<in> fst ` set d \<Longrightarrow>
   Suc (length (filter (\<lambda>e. fst e \<noteq> k) d)) = length d"
proof (induction d)
  case Nil
  then show ?case by simp
next
  case (Cons e d)
  show ?case
  proof (cases "fst e = k")
    case True
    with Cons.prems have "k \<notin> fst ` set d" by auto
    then have "filter (\<lambda>e. fst e \<noteq> k) d = d"
      by (auto simp: filter_id_conv)
    with True show ?thesis by simp
  next
    case False
    with Cons show ?thesis by auto
  qed
qed

lemma map_of_present: "k \<in> fst ` set d \<Longrightarrow> \<exists>v. map_of d k = Some v"
  by (induction d) auto

section \<open>The cache insert\<close>

lemma add_present:
  assumes "distinct (map fst (packets s))" and "od_contains (key (h p)) (packets s)"
  shows "PacketList__add h s p =
           Inr (s\<lparr>packets := filter (\<lambda>e. fst e \<noteq> key (h p)) (packets s) @ [(key (h p), p)]\<rparr>)"
proof -
  let ?k = "key (h p)"
  from assms(2) have "?k \<in> fst ` set (packets s)" by (simp add: od_contains_def)
  then obtain v where v: "map_of (packets s) ?k = Some v"
    using map_of_present by fastforce
  have "?k \<notin> fst ` set (filter (\<lambda>e. fst e \<noteq> ?k) (packets s))" by auto
  then have "setitem ?k p (filter (\<lambda>e. fst e \<noteq> ?k) (packets s) @ [(?k, v)])
               = filter (\<lambda>e. fst e \<noteq> ?k) (packets s) @ [(?k, p)]"
    by (rule setitem_last)
  with v assms(2) show ?thesis
    by (simp add: PacketList__add_def move_to_end_def Let_def)
qed

lemma add_full:
  assumes "\<not> od_contains (key (h p)) (packets s)" and "int (length (packets s)) = maxlen s"
    and "packets s \<noteq> []"
  shows "PacketList__add h s p = Inr (s\<lparr>packets := tl (packets s) @ [(key (h p), p)]\<rparr>)"
proof -
  let ?k = "key (h p)"
  from assms(3) obtain e d where d: "packets s = e # d" by (cases "packets s") auto
  with assms(1) have "?k \<notin> fst ` set d" by (auto simp: od_contains_def)
  then have "setitem ?k p d = d @ [(?k, p)]" by (rule setitem_absent)
  with assms(1,2) d show ?thesis
    by (simp add: PacketList__add_def popitem_first_def Let_def)
qed

lemma add_room:
  assumes "\<not> od_contains (key (h p)) (packets s)" and "int (length (packets s)) \<noteq> maxlen s"
  shows "PacketList__add h s p = Inr (s\<lparr>packets := packets s @ [(key (h p), p)]\<rparr>)"
proof -
  from assms(1) have "key (h p) \<notin> fst ` set (packets s)" by (auto simp: od_contains_def)
  then have "setitem (key (h p)) p (packets s) = packets s @ [(key (h p), p)]"
    by (rule setitem_absent)
  with assms show ?thesis
    by (simp add: PacketList__add_def Let_def)
qed

lemma add_invariant:
  assumes "distinct (map fst (packets s))" and "int (length (packets s)) \<le> maxlen s"
    and "0 < maxlen s"
  shows "\<exists>s'. PacketList__add h s p = Inr s' \<and> distinct (map fst (packets s'))
           \<and> int (length (packets s')) \<le> maxlen s' \<and> maxlen s' = maxlen s
           \<and> total_rx s' = total_rx s \<and> total_tx s' = total_tx s \<and> types s' = types s"
proof (cases "od_contains (key (h p)) (packets s)")
  case True
  then have "key (h p) \<in> fst ` set (packets s)" by (simp add: od_contains_def)
  with assms(1) have "Suc (length (filter (\<lambda>e. fst e \<noteq> key (h p)) (packets s))) = length (packets s)"
    by (rule length_filter_key)
  moreover have "distinct (map fst (filter (\<lambda>e. fst e \<noteq> key (h p)) (packets s)))"
    using assms(1) by (simp add: distinct_map_filter)
  ultimately show ?thesis
    using add_present [of s h p] assms True by auto
next
  case False
  note absent = this
  then have notin: "key (h p) \<notin> fst ` set (packets s)" by (simp add: od_contains_def)
  show ?thesis
  proof (cases "int (length (packets s)) = maxlen s")
    case True
    with assms(3) have ne: "packets s \<noteq> []" by auto
    then obtain e d where d: "packets s = e # d" by (cases "packets s") auto
    with assms(1) notin True show ?thesis
      using add_full [of h p s] absent ne assms by auto
  next
    case False
    with assms(1,2) notin show ?thesis
      using add_room [of h p s] absent by auto
  qed
qed

lemma ensure_type_lookup:
  "ensure_type ts T T = Some (counter_of ts T)"
  by (auto simp: ensure_type_def counter_of_def split: option.splits)

lemma ensure_type_upd:
  "(ensure_type ts T)(T \<mapsto> c) = ts(T \<mapsto> c)"
  by (auto simp: ensure_type_def)

lemma rx_eq:
  assumes "PacketList__add h (s\<lparr>total_rx := total_rx s + 1\<rparr>) p = Inr s2"
  shows "PacketList_rx h s p =
           Inr (s2\<lparr>types := (types s2)(ptype_of h p \<mapsto>
                  (counter_of (types s2) (ptype_of h p))
                    \<lparr>rx := rx (counter_of (types s2) (ptype_of h p)) + 1\<rparr>)\<rparr>)"
  using assms
  by (simp add: PacketList_rx_def Let_def ensure_type_lookup ensure_type_upd ptype_of_def)

lemma tx_eq:
  assumes "PacketList__add h (s\<lparr>total_tx := total_tx s + 1\<rparr>) p = Inr s2"
  shows "PacketList_tx h s p =
           Inr (s2\<lparr>types := (types s2)(ptype_of h p \<mapsto>
                  (counter_of (types s2) (ptype_of h p))
                    \<lparr>tx := tx (counter_of (types s2) (ptype_of h p)) + 1\<rparr>)\<rparr>)"
  using assms
  by (simp add: PacketList_tx_def Let_def ensure_type_lookup ensure_type_upd ptype_of_def)

lemma call_step:
  assumes "distinct (map fst (packets s))" and "int (length (packets s)) \<le> maxlen s"
    and "0 < maxlen s"
  shows "\<exists>s'. PacketList_call h s c = Inr s' \<and> distinct (map fst (packets s'))
           \<and> int (length (packets s')) \<le> maxlen s' \<and> maxlen s' = maxlen s
           \<and> total_rx s' = total_rx s + int (length (rx_args [c]))
           \<and> total_tx s' = total_tx s + int (length (tx_args [c]))
           \<and> types s' = (case c of
                Rx p \<Rightarrow> (types s)(ptype_of h p \<mapsto>
                  (counter_of (types s) (ptype_of h p))
                    \<lparr>rx := rx (counter_of (types s) (ptype_of h p)) + 1\<rparr>)
              | Tx p \<Rightarrow> (types s)(ptype_of h p \<mapsto>
                  (counter_of (types s) (ptype_of h p))
                    \<lparr>tx := tx (counter_of (types s) (ptype_of h p)) + 1\<rparr>)
              | Add p \<Rightarrow> types s)"
proof (cases c)
  case (Rx p)
  let ?s1 = "s\<lparr>total_rx := total_rx s + 1\<rparr>"
  from assms have "\<exists>s'. PacketList__add h ?s1 p = Inr s' \<and> distinct (map fst (packets s'))
           \<and> int (length (packets s')) \<le> maxlen s' \<and> maxlen s' = maxlen ?s1
           \<and> total_rx s' = total_rx ?s1 \<and> total_tx s' = total_tx ?s1 \<and> types s' = types ?s1"
    by (intro add_invariant) simp_all
  then obtain s2 where s2: "PacketList__add h ?s1 p = Inr s2" "distinct (map fst (packets s2))"
    "int (length (packets s2)) \<le> maxlen s2" "maxlen s2 = maxlen s"
    "total_rx s2 = total_rx s + 1" "total_tx s2 = total_tx s" "types s2 = types s"
    by auto
  from rx_eq [OF s2(1)] s2(2-) Rx show ?thesis by simp
next
  case (Tx p)
  let ?s1 = "s\<lparr>total_tx := total_tx s + 1\<rparr>"
  from assms have "\<exists>s'. PacketList__add h ?s1 p = Inr s' \<and> distinct (map fst (packets s'))
           \<and> int (length (packets s')) \<le> maxlen s' \<and> maxlen s' = maxlen ?s1
           \<and> total_rx s' = total_rx ?s1 \<and> total_tx s' = total_tx ?s1 \<and> types s' = types ?s1"
    by (intro add_invariant) simp_all
  then obtain s2 where s2: "PacketList__add h ?s1 p = Inr s2" "distinct (map fst (packets s2))"
    "int (length (packets s2)) \<le> maxlen s2" "maxlen s2 = maxlen s"
    "total_rx s2 = total_rx s" "total_tx s2 = total_tx s + 1" "types s2 = types s"
    by auto
  from tx_eq [OF s2(1)] s2(2-) Tx show ?thesis by simp
next
  case (Add p)
  with add_invariant [OF assms, of h p] show ?thesis
    by (auto simp: PacketList_add_def)
qed

lemma calls_invariant:
  assumes "distinct (map fst (packets s))" and "int (length (packets s)) \<le> maxlen s"
    and "0 < maxlen s"
  shows "\<exists>s'. PacketList_calls h s cs = Inr s' \<and> distinct (map fst (packets s'))
           \<and> int (length (packets s')) \<le> maxlen s' \<and> maxlen s' = maxlen s"
  using assms
proof (induction cs arbitrary: s)
  case Nil
  then show ?case by simp
next
  case (Cons c cs)
  from call_step [OF Cons.prems, of h c]
  obtain s1 where s1: "PacketList_call h s c = Inr s1" "distinct (map fst (packets s1))"
    "int (length (packets s1)) \<le> maxlen s1" "maxlen s1 = maxlen s"
    by blast
  with Cons.prems have "0 < maxlen s1" by simp
  from Cons.IH [OF s1(2,3) this] s1(1,4) show ?case by simp
qed

lemma add_total_rx:
  "PacketList__add h (s\<lparr>total_rx := x\<rparr>) p =
     (case PacketList__add h s p of
        Inl (e, s') \<Rightarrow> Inl (e, s'\<lparr>total_rx := x\<rparr>)
      | Inr s' \<Rightarrow> Inr (s'\<lparr>total_rx := x\<rparr>))"
  by (simp add: PacketList__add_def Let_def split: sum.splits prod.splits)

lemma add_total_tx:
  "PacketList__add h (s\<lparr>total_tx := x\<rparr>) p =
     (case PacketList__add h s p of
        Inl (e, s') \<Rightarrow> Inl (e, s'\<lparr>total_tx := x\<rparr>)
      | Inr s' \<Rightarrow> Inr (s'\<lparr>total_tx := x\<rparr>))"
  by (simp add: PacketList__add_def Let_def split: sum.splits prod.splits)

lemma call_packets:
  assumes "PacketList__add h s (call_packet c) = Inr s'"
  shows "\<exists>s''. PacketList_call h s c = Inr s'' \<and> packets s'' = packets s'
           \<and> maxlen s'' = maxlen s'"
proof (cases c)
  case (Rx p)
  with assms have "PacketList__add h (s\<lparr>total_rx := total_rx s + 1\<rparr>) p
                     = Inr (s'\<lparr>total_rx := total_rx s + 1\<rparr>)"
    by (simp add: add_total_rx)
  from rx_eq [OF this] Rx show ?thesis by simp
next
  case (Tx p)
  with assms have "PacketList__add h (s\<lparr>total_tx := total_tx s + 1\<rparr>) p
                     = Inr (s'\<lparr>total_tx := total_tx s + 1\<rparr>)"
    by (simp add: add_total_tx)
  from tx_eq [OF this] Tx show ?thesis by simp
next
  case (Add p)
  with assms show ?thesis by (simp add: PacketList_add_def)
qed

lemma calls_append:
  "PacketList_calls h s (cs @ ds) =
     (case PacketList_calls h s cs of
        Inl err \<Rightarrow> Inl err
      | Inr s' \<Rightarrow> PacketList_calls h s' ds)"
  by (induction cs arbitrary: s) (auto split: sum.splits)

lemma refresh_step:
  assumes "distinct (map fst (packets s))" and "od_contains (call_key h c) (packets s)"
  shows "\<exists>s'. PacketList_call h s c = Inr s'
           \<and> packets s' = filter (\<lambda>e. fst e \<noteq> call_key h c) (packets s) @ [call_item h c]
           \<and> length (packets s') = length (packets s)"
proof -
  let ?k = "call_key h c"
  let ?s' = "s\<lparr>packets := filter (\<lambda>e. fst e \<noteq> ?k) (packets s) @ [call_item h c]\<rparr>"
  from assms have a: "PacketList__add h s (call_packet c) = Inr ?s'"
    using add_present [of s h "call_packet c"] by (simp add: call_key_def call_item_def)
  from assms(2) have "?k \<in> fst ` set (packets s)" by (simp add: od_contains_def)
  with assms(1) have "Suc (length (filter (\<lambda>e. fst e \<noteq> ?k) (packets s))) = length (packets s)"
    by (rule length_filter_key)
  with call_packets [OF a] show ?thesis by auto
qed

lemma fill_calls:
  assumes "distinct (map (call_key h) cs)"
    and "call_key h ` set cs \<inter> fst ` set (packets s) = {}"
    and "int (length (packets s) + length cs) \<le> maxlen s"
  shows "\<exists>s'. PacketList_calls h s cs = Inr s'
           \<and> packets s' = packets s @ map (call_item h) cs \<and> maxlen s' = maxlen s"
  using assms
proof (induction cs arbitrary: s)
  case Nil
  then show ?case by simp
next
  case (Cons c cs)
  let ?s1 = "s\<lparr>packets := packets s @ [call_item h c]\<rparr>"
  from Cons.prems(2) have absent: "\<not> od_contains (key (h (call_packet c))) (packets s)"
    by (auto simp: od_contains_def call_key_def)
  from Cons.prems(3) have "int (length (packets s)) \<noteq> maxlen s" by simp
  with absent have "PacketList__add h s (call_packet c) = Inr ?s1"
    using add_room [of h "call_packet c" s] by (simp add: call_item_def call_key_def)
  from call_packets [OF this] obtain s1 where
    s1: "PacketList_call h s c = Inr s1" "packets s1 = packets s @ [call_item h c]"
      "maxlen s1 = maxlen s"
    by auto
  have "distinct (map (call_key h) cs)" using Cons.prems(1) by simp
  moreover have "call_key h ` set cs \<inter> fst ` set (packets s1) = {}"
    using Cons.prems(1,2) s1(2) by (auto simp: call_item_def)
  moreover have "int (length (packets s1) + length cs) \<le> maxlen s1"
    using Cons.prems(3) s1(2,3) by simp
  ultimately obtain s' where "PacketList_calls h s1 cs = Inr s'"
    "packets s' = packets s1 @ map (call_item h) cs" "maxlen s' = maxlen s1"
    using Cons.IH [of s1] by blast
  with s1 show ?case by simp
qed

lemma overflow_calls:
  assumes "packets s = []" and "0 < maxlen s" and "int (length cs) = maxlen s + 1"
    and "distinct (map (call_key h) cs)"
  shows "\<exists>s'. PacketList_calls h s cs = Inr s' \<and> packets s' = map (call_item h) (tl cs)"
proof -
  from assms(2,3) have len: "2 \<le> length cs" by linarith
  then have ne: "cs \<noteq> []" by auto
  let ?bs = "butlast cs" and ?c = "last cs"
  from ne have cs: "cs = ?bs @ [?c]" by simp
  have dist: "distinct (map (call_key h) (?bs @ [?c]))" using assms(4) cs by simp
  then have d1: "distinct (map (call_key h) ?bs)" by simp
  from dist have notin: "call_key h ?c \<notin> call_key h ` set ?bs" by auto
  have lb: "int (length ?bs) = maxlen s" using assms(3) len by simp
  then have "int (length (packets s) + length ?bs) \<le> maxlen s" using assms(1) by simp
  with d1 assms(1) obtain s1 where
    s1: "PacketList_calls h s ?bs = Inr s1" "packets s1 = map (call_item h) ?bs"
      "maxlen s1 = maxlen s"
    using fill_calls [of h ?bs s] by auto
  have full: "int (length (packets s1)) = maxlen s1" using s1(2,3) lb by simp
  from len have bne: "?bs \<noteq> []" by (cases cs rule: rev_cases) auto
  then have pne: "packets s1 \<noteq> []" using s1(2) by simp
  have "map fst (packets s1) = map (call_key h) ?bs"
    using s1(2) by (simp add: call_item_def)
  with notin have "call_key h ?c \<notin> set (map fst (packets s1))" by simp
  then have absent: "\<not> od_contains (key (h (call_packet ?c))) (packets s1)"
    by (simp add: od_contains_def call_key_def)
  with full pne have
    "PacketList__add h s1 (call_packet ?c)
       = Inr (s1\<lparr>packets := tl (packets s1) @ [call_item h ?c]\<rparr>)"
    using add_full [of h "call_packet ?c" s1] by (simp add: call_item_def call_key_def)
  from call_packets [OF this] obtain s2 where
    s2: "PacketList_call h s1 ?c = Inr s2" "packets s2 = tl (packets s1) @ [call_item h ?c]"
    by auto
  have "tl ?bs @ [?c] = tl cs" using bne cs by (metis tl_append2)
  then have "map (call_item h) (tl cs) = tl (map (call_item h) ?bs) @ [call_item h ?c]"
    by (metis list.simps(8,9) map_append map_tl)
  with s2(2) s1(2) have "packets s2 = map (call_item h) (tl cs)" by simp
  moreover have "PacketList_calls h s cs = Inr s2"
    using calls_append [of h s ?bs "[?c]"] cs s1(1) s2(1) by simp
  ultimately show ?thesis by blast
qed

lemma sample_keys_distinct: "distinct (map (call_key sample_heap) (map Rx [0..<n]))"
  by (simp add: distinct_map inj_on_def call_key_def sample_heap_def comp_def)

section \<open>The bound on the cache\<close>

text \<open>
  C1: for every sequence of \<^verbatim>\<open>rx\<close>, \<^verbatim>\<open>tx\<close> and \<^verbatim>\<open>add\<close> calls on the store as
  \<^verbatim>\<open>__new__\<close> creates it (empty, capacity 100), after every call of the sequence (that is,
  after each of its prefixes) no call has raised and the number of entries of the packet
  cache is at most the capacity, which is still 100.
\<close>

theorem cache_size_bounded:
  "\<exists>s. PacketList_calls h PacketList_new (take n cs) = Inr s \<and> maxlen s = 100
       \<and> PacketList_len s \<le> 100"
proof -
  have "\<exists>s'. PacketList_calls h PacketList_new (take n cs) = Inr s'
          \<and> distinct (map fst (packets s'))
          \<and> int (length (packets s')) \<le> maxlen s' \<and> maxlen s' = maxlen PacketList_new"
    by (rule calls_invariant) (simp_all add: PacketList_new_def)
  then show ?thesis by (auto simp: PacketList_len_def PacketList_new_def)
qed

section \<open>Recency-refresh FIFO eviction\<close>

text \<open>
  C2: the cache implements recency-refresh FIFO eviction. First part: in a cache (a
  dictionary, so each key occurs once) that holds the key of the packet handed over, any
  of \<^verbatim>\<open>rx\<close>, \<^verbatim>\<open>tx\<close> and \<^verbatim>\<open>add\<close> returns, moves that key to the most-recent (last)
  position with the packet handed over as its value, keeps the other items in their order
  and leaves the size as it was. Second part: on an empty store of capacity \<open>C\<close>, for
  any positive \<open>C\<close> (the store of \<^verbatim>\<open>__new__\<close> has \<open>C = 100\<close>), \<open>C + 1\<close> calls with
  pairwise distinct keys all return, and afterwards the key of the first call is absent
  and the cache holds exactly the items of the other \<open>C\<close> calls, in call order.
\<close>

theorem recency_refresh_fifo:
  "(distinct (map fst (packets s)) \<and> od_contains (call_key h c) (packets s) \<longrightarrow>
      (\<exists>s'. PacketList_call h s c = Inr s'
         \<and> packets s' = filter (\<lambda>e. fst e \<noteq> call_key h c) (packets s) @ [call_item h c]
         \<and> PacketList_len s' = PacketList_len s))
   \<and> (packets s0 = [] \<and> 0 < maxlen s0 \<and> int (length cs) = maxlen s0 + 1
        \<and> distinct (map (call_key h) cs) \<longrightarrow>
      (\<exists>s'. PacketList_calls h s0 cs = Inr s'
         \<and> \<not> od_contains (call_key h (hd cs)) (packets s')
         \<and> (\<forall>c \<in> set (tl cs). od_contains (call_key h c) (packets s'))
         \<and> packets s' = map (call_item h) (tl cs)))"
proof (intro conjI impI)
  assume "distinct (map fst (packets s)) \<and> od_contains (call_key h c) (packets s)"
  then show "\<exists>s'. PacketList_call h s c = Inr s'
         \<and> packets s' = filter (\<lambda>e. fst e \<noteq> call_key h c) (packets s) @ [call_item h c]
         \<and> PacketList_len s' = PacketList_len s"
    using refresh_step [of s h c] by (auto simp: PacketList_len_def)
next
  assume a: "packets s0 = [] \<and> 0 < maxlen s0 \<and> int (length cs) = maxlen s0 + 1
        \<and> distinct (map (call_key h) cs)"
  then obtain s' where s': "PacketList_calls h s0 cs = Inr s'"
    "packets s' = map (call_item h) (tl cs)"
    using overflow_calls [of s0 cs h] by blast
  from a have ne: "cs \<noteq> []" by auto
  then have cs: "cs = hd cs # tl cs" by simp
  have keys: "map fst (packets s') = map (call_key h) (tl cs)"
    using s'(2) by (simp add: call_item_def)
  from a have "distinct (map (call_key h) (hd cs # tl cs))" using cs by simp
  then have "call_key h (hd cs) \<notin> set (map (call_key h) (tl cs))" by simp
  with keys have "\<not> od_contains (call_key h (hd cs)) (packets s')"
    by (simp add: od_contains_def)
  moreover have "\<forall>c \<in> set (tl cs). od_contains (call_key h c) (packets s')"
    using keys by (simp add: od_contains_def)
  ultimately show "\<exists>s'. PacketList_calls h s0 cs = Inr s'
         \<and> \<not> od_contains (call_key h (hd cs)) (packets s')
         \<and> (\<forall>c \<in> set (tl cs). od_contains (call_key h c) (packets s'))
         \<and> packets s' = map (call_item h) (tl cs)"
    using s' by blast
qed

theorem recency_refresh_fifo_witness:
  "distinct (map fst (packets (PacketList_new\<lparr>packets := [([], 0), (''k'', 1)]\<rparr>)))
   \<and> od_contains (call_key sample_heap (Tx 0)) (packets (PacketList_new\<lparr>packets := [([], 0), (''k'', 1)]\<rparr>))
   \<and> (\<exists>s'. PacketList_call sample_heap (PacketList_new\<lparr>packets := [([], 0), (''k'', 1)]\<rparr>) (Tx 0) = Inr s'
         \<and> packets s' = [(''k'', 1), ([], 0)] \<and> PacketList_len s' = 2)
   \<and> packets PacketList_new = [] \<and> 0 < maxlen PacketList_new
   \<and> int (length (map Rx [0..<101])) = maxlen PacketList_new + 1
   \<and> distinct (map (call_key sample_heap) (map Rx [0..<101]))
   \<and> (\<exists>s'. PacketList_calls sample_heap PacketList_new (map Rx [0..<101]) = Inr s'
         \<and> \<not> od_contains (call_key sample_heap (Rx 0)) (packets s')
         \<and> packets s' = map (call_item sample_heap) (map Rx [1..<101]))"
proof -
  let ?s = "PacketList_new\<lparr>packets := [([], 0), (''k'', 1)]\<rparr>"
  have k0: "call_key sample_heap (Tx 0) = []"
    by (simp add: call_key_def sample_heap_def)
  have h1: "distinct (map fst (packets ?s)) \<and> od_contains (call_key sample_heap (Tx 0)) (packets ?s)"
    by (simp add: k0 od_contains_def)
  have h2: "packets PacketList_new = [] \<and> 0 < maxlen PacketList_new
      \<and> int (length (map Rx [0..<101])) = maxlen PacketList_new + 1
      \<and> distinct (map (call_key sample_heap) (map Rx [0..<101]))"
    using sample_keys_distinct [of 101] by (simp add: PacketList_new_def)
  have hd0: "hd (map Rx [0..<101]) = Rx 0" by (simp add: upt_conv_Cons hd_map)
  have tl0: "tl (map Rx [0..<101]) = map Rx [1..<101]"
    by (simp add: upt_conv_Cons del: upt_rec_numeral)
  note inst = recency_refresh_fifo [of ?s sample_heap "Tx 0" PacketList_new "map Rx [0..<101]"]
  from inst h1 have c1: "\<exists>s'. PacketList_call sample_heap ?s (Tx 0) = Inr s'
         \<and> packets s' = [(''k'', 1), ([], 0)] \<and> PacketList_len s' = 2"
    by (simp add: k0 call_item_def PacketList_len_def)
  from inst h2 have c2: "\<exists>s'. PacketList_calls sample_heap PacketList_new (map Rx [0..<101]) = Inr s'
         \<and> \<not> od_contains (call_key sample_heap (Rx 0)) (packets s')
         \<and> packets s' = map (call_item sample_heap) (map Rx [1..<101])"
    unfolding hd0 tl0 by blast
  from h1 h2 c1 c2 show ?thesis by blast
qed

section \<open>Counters of the store\<close>

lemma counter_of_upd:
  "counter_of (ts(T \<mapsto> c)) T' = (if T' = T then c else counter_of ts T')"
  by (simp add: counter_of_def)

lemma count_type_Cons:
  "count_type h T (p # ps) = (if ptype_of h p = T then 1 else 0) + count_type h T ps"
  by (simp add: count_type_def)

lemma count_type_Nil: "count_type h T [] = 0"
  by (simp add: count_type_def)

lemma calls_counters:
  assumes "distinct (map fst (packets s))" and "int (length (packets s)) \<le> maxlen s"
    and "0 < maxlen s"
  shows "\<exists>s'. PacketList_calls h s cs = Inr s'
           \<and> total_rx s' = total_rx s + int (length (rx_args cs))
           \<and> total_tx s' = total_tx s + int (length (tx_args cs))
           \<and> dom (types s') = dom (types s) \<union> ptype_of h ` set (rx_args cs @ tx_args cs)
           \<and> (\<forall>T. tx (counter_of (types s') T)
                    = tx (counter_of (types s) T) + count_type h T (tx_args cs))
           \<and> (\<forall>T. rx (counter_of (types s') T)
                    = rx (counter_of (types s) T) + count_type h T (rx_args cs))"
  using assms
proof (induction cs arbitrary: s)
  case Nil
  then show ?case by (simp add: count_type_Nil)
next
  case (Cons c cs)
  from call_step [OF Cons.prems, of h c]
  obtain s1 where s1: "PacketList_call h s c = Inr s1" "distinct (map fst (packets s1))"
    "int (length (packets s1)) \<le> maxlen s1" "maxlen s1 = maxlen s"
    "total_rx s1 = total_rx s + int (length (rx_args [c]))"
    "total_tx s1 = total_tx s + int (length (tx_args [c]))"
    "types s1 = (case c of
                Rx p \<Rightarrow> (types s)(ptype_of h p \<mapsto>
                  (counter_of (types s) (ptype_of h p))
                    \<lparr>rx := rx (counter_of (types s) (ptype_of h p)) + 1\<rparr>)
              | Tx p \<Rightarrow> (types s)(ptype_of h p \<mapsto>
                  (counter_of (types s) (ptype_of h p))
                    \<lparr>tx := tx (counter_of (types s) (ptype_of h p)) + 1\<rparr>)
              | Add p \<Rightarrow> types s)"
    by blast
  with Cons.prems have "0 < maxlen s1" by simp
  from Cons.IH [OF s1(2,3) this] obtain s' where
    s': "PacketList_calls h s1 cs = Inr s'"
      "total_rx s' = total_rx s1 + int (length (rx_args cs))"
      "total_tx s' = total_tx s1 + int (length (tx_args cs))"
      "dom (types s') = dom (types s1) \<union> ptype_of h ` set (rx_args cs @ tx_args cs)"
      "\<forall>T. tx (counter_of (types s') T)
                    = tx (counter_of (types s1) T) + count_type h T (tx_args cs)"
      "\<forall>T. rx (counter_of (types s') T)
                    = rx (counter_of (types s1) T) + count_type h T (rx_args cs)"
    by blast
  show ?case
  proof (cases c)
    case (Rx p)
    with s1 s' show ?thesis
      by (auto simp: counter_of_upd count_type_Cons)
  next
    case (Tx p)
    with s1 s' show ?thesis
      by (auto simp: counter_of_upd count_type_Cons)
  next
    case (Add p)
    with s1 s' show ?thesis by auto
  qed
qed

lemma add_frame:
  "store_after (PacketList__add h s p)
     = s\<lparr>packets := packets (store_after (PacketList__add h s p))\<rparr>"
  by (simp add: PacketList__add_def Let_def split: sum.splits prod.splits)

lemma add_counters:
  "total_rx (store_after (PacketList__add h s p)) = total_rx s"
  "total_tx (store_after (PacketList__add h s p)) = total_tx s"
  "types (store_after (PacketList__add h s p)) = types s"
  "maxlen (store_after (PacketList__add h s p)) = maxlen s"
  by (subst add_frame, simp)+

lemma rx_unfold:
  "PacketList_rx h s p =
     (case PacketList__add h (s\<lparr>total_rx := total_rx s + 1\<rparr>) p of
        Inl err \<Rightarrow> Inl err
      | Inr s2 \<Rightarrow> Inr (s2\<lparr>types := (types s2)(ptype_of h p \<mapsto>
                  (counter_of (types s2) (ptype_of h p))
                    \<lparr>rx := rx (counter_of (types s2) (ptype_of h p)) + 1\<rparr>)\<rparr>))"
  by (simp add: rx_eq split: sum.splits) (simp add: PacketList_rx_def)

lemma tx_unfold:
  "PacketList_tx h s p =
     (case PacketList__add h (s\<lparr>total_tx := total_tx s + 1\<rparr>) p of
        Inl err \<Rightarrow> Inl err
      | Inr s2 \<Rightarrow> Inr (s2\<lparr>types := (types s2)(ptype_of h p \<mapsto>
                  (counter_of (types s2) (ptype_of h p))
                    \<lparr>tx := tx (counter_of (types s2) (ptype_of h p)) + 1\<rparr>)\<rparr>))"
  by (simp add: tx_eq split: sum.splits) (simp add: PacketList_tx_def)

lemma rx_totals:
  "total_rx (store_after (PacketList_rx h s p)) = total_rx s + 1"
  "total_tx (store_after (PacketList_rx h s p)) = total_tx s"
proof -
  let ?s1 = "s\<lparr>total_rx := total_rx s + 1\<rparr>"
  have "total_rx (store_after (PacketList__add h ?s1 p)) = total_rx ?s1"
    "total_tx (store_after (PacketList__add h ?s1 p)) = total_tx ?s1"
    by (rule add_counters)+
  then show "total_rx (store_after (PacketList_rx h s p)) = total_rx s + 1"
    "total_tx (store_after (PacketList_rx h s p)) = total_tx s"
    by (auto simp: rx_unfold split: sum.splits)
qed

lemma tx_totals:
  "total_rx (store_after (PacketList_tx h s p)) = total_rx s"
  "total_tx (store_after (PacketList_tx h s p)) = total_tx s + 1"
proof -
  let ?s1 = "s\<lparr>total_tx := total_tx s + 1\<rparr>"
  have "total_rx (store_after (PacketList__add h ?s1 p)) = total_rx ?s1"
    "total_tx (store_after (PacketList__add h ?s1 p)) = total_tx ?s1"
    by (rule add_counters)+
  then show "total_rx (store_after (PacketList_tx h s p)) = total_rx s"
    "total_tx (store_after (PacketList_tx h s p)) = total_tx s + 1"
    by (auto simp: tx_unfold split: sum.splits)
qed

lemma rx_types:
  assumes "PacketList_rx h s p = Inr s'"
  shows "types s' = (types s)(ptype_of h p \<mapsto>
           (counter_of (types s) (ptype_of h p))
             \<lparr>rx := rx (counter_of (types s) (ptype_of h p)) + 1\<rparr>)"
proof -
  let ?s1 = "s\<lparr>total_rx := total_rx s + 1\<rparr>"
  have "types (store_after (PacketList__add h ?s1 p)) = types ?s1" by (rule add_counters)
  with assms show ?thesis by (auto simp: rx_unfold split: sum.splits)
qed

lemma tx_types:
  assumes "PacketList_tx h s p = Inr s'"
  shows "types s' = (types s)(ptype_of h p \<mapsto>
           (counter_of (types s) (ptype_of h p))
             \<lparr>tx := tx (counter_of (types s) (ptype_of h p)) + 1\<rparr>)"
proof -
  let ?s1 = "s\<lparr>total_tx := total_tx s + 1\<rparr>"
  have "types (store_after (PacketList__add h ?s1 p)) = types ?s1" by (rule add_counters)
  with assms show ?thesis by (auto simp: tx_unfold split: sum.splits)
qed

text \<open>
  C7: for every sequence of calls on the new store, every call returns, \<^verbatim>\<open>_total_rx\<close>
  is the number of \<^verbatim>\<open>rx\<close> calls and \<^verbatim>\<open>_total_tx\<close> the number of \<^verbatim>\<open>tx\<close> calls
  (whatever was evicted), and the per-type table has a record exactly for the class names
  seen by \<^verbatim>\<open>rx\<close> or \<^verbatim>\<open>tx\<close>, holding the numbers of \<^verbatim>\<open>tx\<close> and \<^verbatim>\<open>rx\<close> calls
  with a packet of that class. Call by call, in any store: \<^verbatim>\<open>rx\<close> adds one to
  \<^verbatim>\<open>_total_rx\<close> only and \<^verbatim>\<open>tx\<close> one to \<^verbatim>\<open>_total_tx\<close> only; a returning \<^verbatim>\<open>rx\<close>
  (\<^verbatim>\<open>tx\<close>) adds one to the \<^verbatim>\<open>"rx"\<close> (\<^verbatim>\<open>"tx"\<close>) counter of the packet's class, whose
  record starts as \<^verbatim>\<open>{"tx": 0, "rx": 0}\<close>, and changes no other record; \<^verbatim>\<open>add\<close>
  changes neither total nor the per-type table.
\<close>

theorem counters_exact:
  "(\<exists>s. PacketList_calls h PacketList_new cs = Inr s
       \<and> total_rx s = int (length (rx_args cs))
       \<and> total_tx s = int (length (tx_args cs))
       \<and> (\<forall>T. types s T =
             (if T \<in> ptype_of h ` set (rx_args cs @ tx_args cs)
              then Some \<lparr>tx = count_type h T (tx_args cs), rx = count_type h T (rx_args cs)\<rparr>
              else None)))
   \<and> total_rx (store_after (PacketList_rx h s0 p)) = total_rx s0 + 1
   \<and> total_tx (store_after (PacketList_rx h s0 p)) = total_tx s0
   \<and> total_rx (store_after (PacketList_tx h s0 p)) = total_rx s0
   \<and> total_tx (store_after (PacketList_tx h s0 p)) = total_tx s0 + 1
   \<and> (\<forall>s'. PacketList_rx h s0 p = Inr s' \<longrightarrow>
         types s' = (types s0)(ptype_of h p \<mapsto>
           (counter_of (types s0) (ptype_of h p))
             \<lparr>rx := rx (counter_of (types s0) (ptype_of h p)) + 1\<rparr>))
   \<and> (\<forall>s'. PacketList_tx h s0 p = Inr s' \<longrightarrow>
         types s' = (types s0)(ptype_of h p \<mapsto>
           (counter_of (types s0) (ptype_of h p))
             \<lparr>tx := tx (counter_of (types s0) (ptype_of h p)) + 1\<rparr>))
   \<and> total_rx (store_after (PacketList_add h s0 p)) = total_rx s0
   \<and> total_tx (store_after (PacketList_add h s0 p)) = total_tx s0
   \<and> types (store_after (PacketList_add h s0 p)) = types s0"
proof -
  have "\<exists>s'. PacketList_calls h PacketList_new cs = Inr s'
           \<and> total_rx s' = total_rx PacketList_new + int (length (rx_args cs))
           \<and> total_tx s' = total_tx PacketList_new + int (length (tx_args cs))
           \<and> dom (types s') = dom (types PacketList_new)
                \<union> ptype_of h ` set (rx_args cs @ tx_args cs)
           \<and> (\<forall>T. tx (counter_of (types s') T)
                    = tx (counter_of (types PacketList_new) T) + count_type h T (tx_args cs))
           \<and> (\<forall>T. rx (counter_of (types s') T)
                    = rx (counter_of (types PacketList_new) T) + count_type h T (rx_args cs))"
    by (rule calls_counters) (simp_all add: PacketList_new_def)
  then obtain s where s: "PacketList_calls h PacketList_new cs = Inr s"
    "total_rx s = int (length (rx_args cs))" "total_tx s = int (length (tx_args cs))"
    "dom (types s) = ptype_of h ` set (rx_args cs @ tx_args cs)"
    "\<And>T. tx (counter_of (types s) T) = count_type h T (tx_args cs)"
    "\<And>T. rx (counter_of (types s) T) = count_type h T (rx_args cs)"
    by (auto simp: PacketList_new_def counter_of_def)
  have "types s T =
             (if T \<in> ptype_of h ` set (rx_args cs @ tx_args cs)
              then Some \<lparr>tx = count_type h T (tx_args cs), rx = count_type h T (rx_args cs)\<rparr>
              else None)" for T
  proof (cases "types s T")
    case None
    then have "T \<notin> dom (types s)" by auto
    with s(4) None show ?thesis by simp
  next
    case (Some c)
    then have "T \<in> dom (types s)" by auto
    moreover from Some have "counter_of (types s) T = c" by (simp add: counter_of_def)
    then have "tx c = count_type h T (tx_args cs)" "rx c = count_type h T (rx_args cs)"
      using s(5,6) by auto
    ultimately show ?thesis using s(4) Some by simp
  qed
  with s(1-3) have seq: "\<exists>s. PacketList_calls h PacketList_new cs = Inr s
       \<and> total_rx s = int (length (rx_args cs))
       \<and> total_tx s = int (length (tx_args cs))
       \<and> (\<forall>T. types s T =
             (if T \<in> ptype_of h ` set (rx_args cs @ tx_args cs)
              then Some \<lparr>tx = count_type h T (tx_args cs), rx = count_type h T (rx_args cs)\<rparr>
              else None))"
    by blast
  show ?thesis
    apply (intro conjI allI impI)
    subgoal by (rule seq)
    subgoal by (rule rx_totals)
    subgoal by (rule rx_totals)
    subgoal by (rule tx_totals)
    subgoal by (rule tx_totals)
    subgoal by (erule rx_types)
    subgoal by (erule tx_types)
    subgoal by (simp add: PacketList_add_def add_counters)
    subgoal by (simp add: PacketList_add_def add_counters)
    subgoal by (simp add: PacketList_add_def add_counters)
    done
qed

theorem counters_exact_witness:
  "(\<exists>s. PacketList_calls (sample_heap(7 := (sample_heap 7)\<lparr>pclass := AckPacket\<rparr>))
           PacketList_new [Rx 0, Tx 7, Add 2, Rx 0, Tx 0] = Inr s
       \<and> total_rx s = 2 \<and> total_tx s = 2
       \<and> types s ''MessagePacket'' = Some \<lparr>tx = 1, rx = 2\<rparr>
       \<and> types s ''AckPacket'' = Some \<lparr>tx = 1, rx = 0\<rparr>
       \<and> types s ''RejectPacket'' = None)
   \<and> (\<exists>s'. PacketList_rx (sample_heap(7 := (sample_heap 7)\<lparr>pclass := AckPacket\<rparr>))
           PacketList_new 0 = Inr s'
       \<and> types s' = [''MessagePacket'' \<mapsto> \<lparr>tx = 0, rx = 1\<rparr>])
   \<and> (\<exists>s'. PacketList_tx (sample_heap(7 := (sample_heap 7)\<lparr>pclass := AckPacket\<rparr>))
           PacketList_new 7 = Inr s'
       \<and> types s' = [''AckPacket'' \<mapsto> \<lparr>tx = 1, rx = 0\<rparr>])"
proof -
  let ?h = "sample_heap(7 := (sample_heap 7)\<lparr>pclass := AckPacket\<rparr>)"
  let ?cs = "[Rx 0, Tx 7, Add 2, Rx 0, Tx 0]"
  have t0: "ptype_of ?h 0 = ''MessagePacket''" "ptype_of ?h 7 = ''AckPacket''"
    by (simp_all add: ptype_of_def sample_heap_def)
  have new: "types PacketList_new = Map.empty" by (simp add: PacketList_new_def)
  note i0 = counters_exact [of ?h ?cs PacketList_new 0]
  note i1 = counters_exact [of ?h ?cs PacketList_new 7]
  from i0 obtain s where s: "PacketList_calls ?h PacketList_new ?cs = Inr s"
    "total_rx s = int (length (rx_args ?cs))" "total_tx s = int (length (tx_args ?cs))"
    "\<And>T. types s T =
             (if T \<in> ptype_of ?h ` set (rx_args ?cs @ tx_args ?cs)
              then Some \<lparr>tx = count_type ?h T (tx_args ?cs), rx = count_type ?h T (rx_args ?cs)\<rparr>
              else None)"
    by blast
  have "types s ''MessagePacket'' = Some \<lparr>tx = 1, rx = 2\<rparr>"
    "types s ''AckPacket'' = Some \<lparr>tx = 1, rx = 0\<rparr>"
    "types s ''RejectPacket'' = None"
    by (simp_all add: s(4) t0 count_type_def)
  with s(1-3) have c1: "\<exists>s. PacketList_calls ?h PacketList_new ?cs = Inr s
       \<and> total_rx s = 2 \<and> total_tx s = 2
       \<and> types s ''MessagePacket'' = Some \<lparr>tx = 1, rx = 2\<rparr>
       \<and> types s ''AckPacket'' = Some \<lparr>tx = 1, rx = 0\<rparr>
       \<and> types s ''RejectPacket'' = None"
    by simp
  have "\<exists>s'. PacketList_rx ?h PacketList_new 0 = Inr s'"
    by (simp add: rx_unfold PacketList__add_def od_contains_def PacketList_new_def)
  moreover from i0 have "\<forall>s'. PacketList_rx ?h PacketList_new 0 = Inr s' \<longrightarrow>
         types s' = (types PacketList_new)(ptype_of ?h 0 \<mapsto>
           (counter_of (types PacketList_new) (ptype_of ?h 0))
             \<lparr>rx := rx (counter_of (types PacketList_new) (ptype_of ?h 0)) + 1\<rparr>)"
    by blast
  ultimately have c2: "\<exists>s'. PacketList_rx ?h PacketList_new 0 = Inr s'
       \<and> types s' = [''MessagePacket'' \<mapsto> \<lparr>tx = 0, rx = 1\<rparr>]"
    by (auto simp: t0 new counter_of_def)
  have "\<exists>s'. PacketList_tx ?h PacketList_new 7 = Inr s'"
    by (simp add: tx_unfold PacketList__add_def od_contains_def PacketList_new_def)
  moreover from i1 have "\<forall>s'. PacketList_tx ?h PacketList_new 7 = Inr s' \<longrightarrow>
         types s' = (types PacketList_new)(ptype_of ?h 7 \<mapsto>
           (counter_of (types PacketList_new) (ptype_of ?h 7))
             \<lparr>tx := tx (counter_of (types PacketList_new) (ptype_of ?h 7)) + 1\<rparr>)"
    by blast
  ultimately have c3: "\<exists>s'. PacketList_tx ?h PacketList_new 7 = Inr s'
       \<and> types s' = [''AckPacket'' \<mapsto> \<lparr>tx = 1, rx = 0\<rparr>]"
    by (auto simp: t0 new counter_of_def)
  from c1 c2 c3 show ?thesis by blast
qed

section \<open>The statistics of the store\<close>

text \<open>
  C4: in every state \<^verbatim>\<open>stats()\<close> of the store returns \<^verbatim>\<open>total_tracked\<close> equal to
  \<^verbatim>\<open>_total_rx + _total_rx\<close>, \<^verbatim>\<open>rx\<close> and \<^verbatim>\<open>tx\<close> equal to the two totals, the
  per-type table and the cache. So \<^verbatim>\<open>total_tracked\<close> is \<^verbatim>\<open>_total_rx + _total_tx\<close>
  only when the two totals agree, and after any sequence of calls on the new store it is
  twice the number of \<^verbatim>\<open>rx\<close> calls.
\<close>

theorem stats_snapshot:
  "st_total_tracked (PacketList_stats s) = total_rx s + total_rx s
   \<and> st_rx (PacketList_stats s) = total_rx s
   \<and> st_tx (PacketList_stats s) = total_tx s
   \<and> st_types (PacketList_stats s) = types s
   \<and> st_packets (PacketList_stats s) = packets s
   \<and> (st_total_tracked (PacketList_stats s) = total_rx s + total_tx s
        \<longleftrightarrow> total_rx s = total_tx s)
   \<and> (\<exists>s'. PacketList_calls h PacketList_new cs = Inr s'
        \<and> st_total_tracked (PacketList_stats s') = 2 * int (length (rx_args cs)))"
proof -
  have "\<exists>s'. PacketList_calls h PacketList_new cs = Inr s'
           \<and> total_rx s' = total_rx PacketList_new + int (length (rx_args cs))
           \<and> total_tx s' = total_tx PacketList_new + int (length (tx_args cs))
           \<and> dom (types s') = dom (types PacketList_new)
                \<union> ptype_of h ` set (rx_args cs @ tx_args cs)
           \<and> (\<forall>T. tx (counter_of (types s') T)
                    = tx (counter_of (types PacketList_new) T) + count_type h T (tx_args cs))
           \<and> (\<forall>T. rx (counter_of (types s') T)
                    = rx (counter_of (types PacketList_new) T) + count_type h T (rx_args cs))"
    by (rule calls_counters) (simp_all add: PacketList_new_def)
  then obtain s' where "PacketList_calls h PacketList_new cs = Inr s'"
    "total_rx s' = int (length (rx_args cs))"
    by (auto simp: PacketList_new_def)
  then have "\<exists>s'. PacketList_calls h PacketList_new cs = Inr s'
        \<and> st_total_tracked (PacketList_stats s') = 2 * int (length (rx_args cs))"
    by (auto simp: PacketList_stats_def)
  then show ?thesis by (simp add: PacketList_stats_def)
qed

section \<open>The tracker\<close>

lemma remove_eq: "PacketTrack__remove t k = Inr (t\<lparr>data := (data t)(k := None)\<rparr>)"
proof (cases "k \<in> dom (data t)")
  case True
  then show ?thesis by (simp add: PacketTrack__remove_def dict_del_def)
next
  case False
  then have "(data t)(k := None) = data t" by (auto simp: fun_eq_iff)
  with False show ?thesis by (simp add: PacketTrack__remove_def dict_del_def)
qed

lemma remove_absent: "k \<notin> dom (data t) \<Longrightarrow> PacketTrack__remove t k = Inr t"
  by (simp add: PacketTrack__remove_def dict_del_def)

lemma rx_total_tracked:
  "\<exists>t'. PacketTrack_rx h t p = Inr t' \<and> total_tracked t' = total_tracked t"
  by (simp add: PacketTrack_rx_def remove_eq)

lemma call_total_tracked:
  "\<exists>h' t'. PacketTrack_call (h, t) c = Inr (h', t')
      \<and> total_tracked t' = total_tracked t + int (length (tracked_args [c]))
   \<or> (\<exists>e. PacketTrack_call (h, t) c = Inl (e, (h, t))) \<and> tracked_args [c] = []"
proof (cases c)
  case (TRx p)
  with rx_total_tracked [of h t p] show ?thesis by auto
next
  case (TTx p)
  then show ?thesis by (simp add: PacketTrack_tx_def Let_def)
next
  case (TRemove k)
  then show ?thesis by (simp add: PacketTrack_remove_def remove_eq)
next
  case (TGet k)
  then show ?thesis by simp
next
  case (TGetitem k)
  then show ?thesis by (simp add: PacketTrack_getitem_def split: option.splits)
qed simp_all

lemma call_after_total_tracked:
  "total_tracked (snd (store_after (PacketTrack_call (h, t) c)))
     = total_tracked t + int (length (tracked_args [c]))"
  using call_total_tracked [of h t c] by auto

lemma tracked_args_Cons:
  "int (length (tracked_args (c # cs)))
     = int (length (tracked_args [c])) + int (length (tracked_args cs))"
  by (cases c) simp_all

lemma calls_total_tracked:
  "total_tracked (snd (PacketTrack_calls st cs))
     = total_tracked (snd st) + int (length (tracked_args cs))"
proof (induction cs arbitrary: st)
  case Nil
  then show ?case by simp
next
  case (Cons c cs)
  obtain h t where st: "st = (h, t)" by (cases st)
  have "total_tracked (snd (PacketTrack_calls st (c # cs)))
          = total_tracked (snd (store_after (PacketTrack_call st c)))
              + int (length (tracked_args cs))"
    using Cons.IH by simp
  also have "total_tracked (snd (store_after (PacketTrack_call st c)))
          = total_tracked (snd st) + int (length (tracked_args [c]))"
    using call_after_total_tracked [of h t c] st by simp
  finally show ?case by (simp add: tracked_args_Cons [of c cs])
qed

text \<open>
  C8: \<^verbatim>\<open>total_tracked\<close> of the tracker never decreases and counts the \<^verbatim>\<open>tx\<close> calls.
  After any sequence of public calls on the new tracker it is the number of \<^verbatim>\<open>tx\<close>
  calls of the sequence, and \<^verbatim>\<open>stats()["total_tracked"]\<close> reports that number; from any
  state a sequence of calls adds the number of its \<^verbatim>\<open>tx\<close> calls, whatever it removes;
  no single call makes it smaller; and every \<^verbatim>\<open>tx\<close> adds one, also when it overwrites an
  entry.
\<close>

theorem total_tracked_counts_tx:
  "total_tracked (snd (PacketTrack_calls (h, PacketTrack_new) cs))
     = int (length (tracked_args cs))
   \<and> ts_total_tracked (PacketTrack_stats (fst (PacketTrack_calls (h, PacketTrack_new) cs))
                                          (snd (PacketTrack_calls (h, PacketTrack_new) cs)))
     = int (length (tracked_args cs))
   \<and> total_tracked (snd (PacketTrack_calls (h0, t0) ds))
     = total_tracked t0 + int (length (tracked_args ds))
   \<and> total_tracked t0 \<le> total_tracked (snd (store_after (PacketTrack_call (h0, t0) c)))
   \<and> total_tracked (snd (PacketTrack_tx h0 t0 p)) = total_tracked t0 + 1"
proof -
  have a: "total_tracked (snd (PacketTrack_calls (h, PacketTrack_new) cs))
     = int (length (tracked_args cs))"
    using calls_total_tracked [of "(h, PacketTrack_new)" cs] by (simp add: PacketTrack_new_def)
  have b: "total_tracked (snd (PacketTrack_calls (h0, t0) ds))
     = total_tracked t0 + int (length (tracked_args ds))"
    using calls_total_tracked [of "(h0, t0)" ds] by simp
  have c: "total_tracked t0 \<le> total_tracked (snd (store_after (PacketTrack_call (h0, t0) c)))"
    by (simp add: call_after_total_tracked)
  have d: "total_tracked (snd (PacketTrack_tx h0 t0 p)) = total_tracked t0 + 1"
    by (simp add: PacketTrack_tx_def Let_def)
  from a b c d show ?thesis by (simp add: PacketTrack_stats_def)
qed

text \<open>
  C10: for a packet that is neither an \<^verbatim>\<open>AckPacket\<close> nor a \<^verbatim>\<open>RejectPacket\<close> and
  whose \<^verbatim>\<open>ackMsgNo\<close> is falsy, \<^verbatim>\<open>rx\<close> of the tracker returns and leaves the whole
  tracker (entries and \<^verbatim>\<open>total_tracked\<close>) and the heap as they were.
\<close>

theorem rx_without_reference_unchanged:
  "pclass (h p) \<noteq> AckPacket \<Longrightarrow> pclass (h p) \<noteq> RejectPacket \<Longrightarrow>
   \<not> truthy (ackMsgNo (h p)) \<Longrightarrow>
   PacketTrack_rx h t p = Inr t \<and> PacketTrack_call (h, t) (TRx p) = Inr (h, t)"
  by (simp add: PacketTrack_rx_def)

theorem rx_without_reference_unchanged_witness:
  "pclass (sample_heap_acks 5) \<noteq> AckPacket \<and> pclass (sample_heap_acks 5) \<noteq> RejectPacket
   \<and> \<not> truthy (ackMsgNo (sample_heap_acks 5))
   \<and> PacketTrack_rx sample_heap_acks (snd (PacketTrack_tx sample_heap_acks PacketTrack_new 3)) 5
       = Inr (snd (PacketTrack_tx sample_heap_acks PacketTrack_new 3))"
proof -
  have a: "pclass (sample_heap_acks 5) \<noteq> AckPacket" "pclass (sample_heap_acks 5) \<noteq> RejectPacket"
    "\<not> truthy (ackMsgNo (sample_heap_acks 5))"
    by (simp_all add: sample_heap_acks_def sample_heap_def)
  from rx_without_reference_unchanged
         [of sample_heap_acks 5 "snd (PacketTrack_tx sample_heap_acks PacketTrack_new 3)"] a
  show ?thesis by blast
qed

text \<open>
  C3: after \<^verbatim>\<open>tx(p)\<close>, for \<open>m\<close> the message number of \<open>p\<close>, \<^verbatim>\<open>get(m)\<close> returns
  the object \<open>p\<close>, whose \<^verbatim>\<open>send_count\<close> is now 0 and whose other attributes are as
  before. If then, after any further public calls, an \<^verbatim>\<open>AckPacket\<close> whose \<^verbatim>\<open>msgNo\<close>
  is \<open>m\<close> is passed to \<^verbatim>\<open>rx\<close>, the call returns and \<^verbatim>\<open>get(m)\<close> gives \<^verbatim>\<open>None\<close>.
\<close>

theorem tx_then_ack:
  "PacketTrack_tx h t p = (h1, t1) \<Longrightarrow>
   PacketTrack_get t1 (msgNo (h p)) = Some p
   \<and> h1 p = (h p)\<lparr>send_count := 0\<rparr> \<and> send_count (h1 p) = 0
   \<and> (\<forall>cs h2 t2 a. PacketTrack_calls (h1, t1) cs = (h2, t2)
          \<and> pclass (h2 a) = AckPacket \<and> msgNo (h2 a) = msgNo (h p)
        \<longrightarrow> (\<exists>t3. PacketTrack_rx h2 t2 a = Inr t3
                \<and> PacketTrack_get t3 (msgNo (h p)) = None))"
proof -
  assume tx: "PacketTrack_tx h t p = (h1, t1)"
  then have h1: "h1 = h(p := (h p)\<lparr>send_count := 0\<rparr>)"
    and t1: "t1 = t\<lparr>data := (data t)(msgNo (h p) \<mapsto> p),
                    total_tracked := total_tracked t + 1\<rparr>"
    by (auto simp: PacketTrack_tx_def Let_def)
  have "PacketTrack_get t1 (msgNo (h p)) = Some p"
    by (simp add: t1 PacketTrack_get_def)
  moreover have "h1 p = (h p)\<lparr>send_count := 0\<rparr>" "send_count (h1 p) = 0"
    by (simp_all add: h1)
  moreover have "\<exists>t3. PacketTrack_rx h2 t2 a = Inr t3
                \<and> PacketTrack_get t3 (msgNo (h p)) = None"
    if "pclass (h2 a) = AckPacket" "msgNo (h2 a) = msgNo (h p)" for h2 t2 a
    using that by (simp add: PacketTrack_rx_def remove_eq PacketTrack_get_def)
  ultimately show ?thesis by blast
qed

lemma sample_msgNo: "msgNo (sample_heap_acks 3) = Some ''111''"
  by (simp add: sample_heap_acks_def sample_heap_def numeral_3_eq_3)

theorem tx_then_ack_witness:
  "send_count (sample_heap_acks 3) = 3
   \<and> PacketTrack_get (snd (PacketTrack_tx sample_heap_acks PacketTrack_new 3)) (Some ''111'')
       = Some 3
   \<and> send_count (fst (PacketTrack_tx sample_heap_acks PacketTrack_new 3) 3) = 0
   \<and> pclass (fst (PacketTrack_tx sample_heap_acks PacketTrack_new 3) 200) = AckPacket
   \<and> msgNo (fst (PacketTrack_tx sample_heap_acks PacketTrack_new 3) 200) = Some ''111''
   \<and> (\<exists>t3. PacketTrack_rx (fst (PacketTrack_tx sample_heap_acks PacketTrack_new 3))
               (snd (PacketTrack_tx sample_heap_acks PacketTrack_new 3)) 200 = Inr t3
          \<and> PacketTrack_get t3 (Some ''111'') = None)"
proof -
  let ?h1 = "fst (PacketTrack_tx sample_heap_acks PacketTrack_new 3)"
  let ?t1 = "snd (PacketTrack_tx sample_heap_acks PacketTrack_new 3)"
  have tx: "PacketTrack_tx sample_heap_acks PacketTrack_new 3 = (?h1, ?t1)" by simp
  note inst = tx_then_ack [OF tx, unfolded sample_msgNo]
  have a: "send_count (sample_heap_acks 3) = 3"
    by (simp add: sample_heap_acks_def sample_heap_def)
  have b: "pclass (?h1 200) = AckPacket" "msgNo (?h1 200) = Some ''111''"
    by (simp_all add: PacketTrack_tx_def Let_def sample_heap_acks_def)
  have c: "PacketTrack_calls (?h1, ?t1) [] = (?h1, ?t1)" by simp
  from inst b c have "\<exists>t3. PacketTrack_rx ?h1 ?t1 200 = Inr t3
          \<and> PacketTrack_get t3 (Some ''111'') = None"
    by blast
  with inst a b show ?thesis by blast
qed

text \<open>
  C6: removal is silent on an absent key. For a key \<open>k\<close> that is not tracked,
  \<^verbatim>\<open>remove(k)\<close> returns without an error and leaves the tracker unchanged, and so does
  \<^verbatim>\<open>rx\<close> of an acknowledgment or a rejection whose \<^verbatim>\<open>msgNo\<close> is \<open>k\<close> and of any
  other packet whose \<^verbatim>\<open>ackMsgNo\<close> is \<open>k\<close>. Removal is idempotent: \<^verbatim>\<open>remove\<close> always
  returns, the key is then absent, and removing it again changes nothing.
\<close>

theorem removal_of_absent_key:
  "(k \<notin> dom (data t) \<longrightarrow>
      PacketTrack_remove t k = Inr t
      \<and> (\<forall>h p. (pclass (h p) = AckPacket \<and> msgNo (h p) = k)
              \<or> (pclass (h p) = RejectPacket \<and> msgNo (h p) = k)
              \<or> (pclass (h p) \<noteq> AckPacket \<and> pclass (h p) \<noteq> RejectPacket
                   \<and> ackMsgNo (h p) = k)
           \<longrightarrow> PacketTrack_rx h t p = Inr t))
   \<and> (\<exists>t'. PacketTrack_remove t0 k0 = Inr t' \<and> k0 \<notin> dom (data t')
          \<and> PacketTrack_remove t' k0 = Inr t')"
proof -
  have "\<exists>t'. PacketTrack_remove t0 k0 = Inr t' \<and> k0 \<notin> dom (data t')
          \<and> PacketTrack_remove t' k0 = Inr t'"
    by (simp add: PacketTrack_remove_def remove_eq)
  then show ?thesis
    by (auto simp: PacketTrack_remove_def PacketTrack_rx_def remove_absent)
qed

theorem removal_of_absent_key_witness:
  "Some ''111'' \<notin> dom (data (snd (PacketTrack_tx sample_heap_acks PacketTrack_new 2)))
   \<and> PacketTrack_get (snd (PacketTrack_tx sample_heap_acks PacketTrack_new 2)) (Some ''11'')
       = Some 2
   \<and> PacketTrack_remove (snd (PacketTrack_tx sample_heap_acks PacketTrack_new 2)) (Some ''111'')
       = Inr (snd (PacketTrack_tx sample_heap_acks PacketTrack_new 2))
   \<and> pclass (sample_heap_acks 200) = AckPacket \<and> msgNo (sample_heap_acks 200) = Some ''111''
   \<and> PacketTrack_rx sample_heap_acks (snd (PacketTrack_tx sample_heap_acks PacketTrack_new 2)) 200
       = Inr (snd (PacketTrack_tx sample_heap_acks PacketTrack_new 2))
   \<and> pclass (sample_heap_acks 201) = RejectPacket \<and> msgNo (sample_heap_acks 201) = Some ''111''
   \<and> PacketTrack_rx sample_heap_acks (snd (PacketTrack_tx sample_heap_acks PacketTrack_new 2)) 201
       = Inr (snd (PacketTrack_tx sample_heap_acks PacketTrack_new 2))
   \<and> pclass (sample_heap_acks 202) = OtherPacket ''MessagePacket''
   \<and> ackMsgNo (sample_heap_acks 202) = Some ''111''
   \<and> PacketTrack_rx sample_heap_acks (snd (PacketTrack_tx sample_heap_acks PacketTrack_new 2)) 202
       = Inr (snd (PacketTrack_tx sample_heap_acks PacketTrack_new 2))"
proof -
  let ?t = "snd (PacketTrack_tx sample_heap_acks PacketTrack_new 2)"
  have m2: "msgNo (sample_heap_acks 2) = Some ''11''"
    by (simp add: sample_heap_acks_def sample_heap_def numeral_2_eq_2)
  have d: "data ?t = [Some ''11'' \<mapsto> 2]"
    by (simp add: PacketTrack_tx_def Let_def m2 PacketTrack_new_def)
  have a: "Some ''111'' \<notin> dom (data ?t)" by (simp add: d)
  have g: "PacketTrack_get ?t (Some ''11'') = Some 2" by (simp add: PacketTrack_get_def d)
  have b: "pclass (sample_heap_acks 200) = AckPacket" "msgNo (sample_heap_acks 200) = Some ''111''"
    "pclass (sample_heap_acks 201) = RejectPacket" "msgNo (sample_heap_acks 201) = Some ''111''"
    "pclass (sample_heap_acks 202) = OtherPacket ''MessagePacket''"
    "ackMsgNo (sample_heap_acks 202) = Some ''111''"
    by (simp_all add: sample_heap_acks_def)
  note inst = removal_of_absent_key [of "Some ''111''" ?t]
  from inst a have r: "PacketTrack_remove ?t (Some ''111'') = Inr ?t"
    by blast
  from inst a b have r1: "PacketTrack_rx sample_heap_acks ?t 200 = Inr ?t"
    by blast
  from inst a b have r2: "PacketTrack_rx sample_heap_acks ?t 201 = Inr ?t"
    by blast
  from inst a b have r3: "PacketTrack_rx sample_heap_acks ?t 202 = Inr ?t"
    by (metis packet_class.distinct(3,5))
  from a g r r1 r2 r3 b show ?thesis by blast
qed

section \<open>The collector\<close>

lemma rx_loop_served:
  "\<forall>m \<in> set ms. serves_rx m p \<Longrightarrow>
   rx_loop (ms @ rest) p tr = rx_loop rest p (tr @ map (\<lambda>m. Called_rx m p) ms)"
  by (induction ms arbitrary: tr) (simp_all add: serves_rx_def)

lemma tx_loop_served:
  "\<forall>m \<in> set ms. serves_tx m p \<Longrightarrow>
   tx_loop (ms @ rest) p tr = tx_loop rest p (tr @ map (\<lambda>m. Called_tx m p) ms)"
  by (induction ms arbitrary: tr) (simp_all add: serves_tx_def)

lemma monitors_foldl_register:
  "monitors (foldl register c ms) = monitors c @ ms"
  by (induction ms arbitrary: c) (simp_all add: register_def)

text \<open>
  C5, as the code has it: registering the monitors \<open>ms\<close> one after the other on the new
  collector yields the registration list \<open>ms\<close>. If every registered monitor serves the
  packet (its factory returns, its instance has \<^verbatim>\<open>rx\<close> and \<^verbatim>\<open>tx\<close>, and the method
  called returns), then \<^verbatim>\<open>Collector.rx(p)\<close> returns and has called \<^verbatim>\<open>rx(p)\<close> of each
  registration once, in registration order, and likewise \<^verbatim>\<open>tx\<close>. If the registration
  list is \<open>pre\<close>, then a monitor \<open>bad\<close>, then \<open>post\<close>, and all of \<open>pre\<close> serve
  the packet, then: when the instance of \<open>bad\<close> lacks one of the two methods, the call
  raises the \<^verbatim>\<open>TypeError\<close> naming \<open>bad\<close>, having called exactly the monitors of
  \<open>pre\<close> once each, in order; when the method of \<open>bad\<close> raises, the call raises
  that error, having called \<open>pre\<close> and \<open>bad\<close>; when the factory of \<open>bad\<close>
  raises, the call raises that error, having called \<open>pre\<close>. In all three cases no
  monitor of \<open>post\<close> is called.
\<close>

theorem collector_dispatch:
  "monitors (foldl register PacketCollector_new ms) = ms
   \<and> ((\<forall>m \<in> set (monitors c). serves_rx m p) \<longrightarrow>
        PacketCollector_rx c p tr = Inr (tr @ map (\<lambda>m. Called_rx m p) (monitors c)))
   \<and> ((\<forall>m \<in> set (monitors c). serves_tx m p) \<longrightarrow>
        PacketCollector_tx c p tr = Inr (tr @ map (\<lambda>m. Called_tx m p) (monitors c)))
   \<and> (monitors c = pre @ bad # post \<and> (\<forall>m \<in> set pre. serves_rx m p)
        \<and> construct_raises bad = None \<and> \<not> isinstance_PacketMonitor bad \<longrightarrow>
        PacketCollector_rx c p tr
          = Inl (not_a_monitor bad, tr @ map (\<lambda>m. Called_rx m p) pre))
   \<and> (monitors c = pre @ bad # post \<and> (\<forall>m \<in> set pre. serves_tx m p)
        \<and> construct_raises bad = None \<and> \<not> isinstance_PacketMonitor bad \<longrightarrow>
        PacketCollector_tx c p tr
          = Inl (not_a_monitor bad, tr @ map (\<lambda>m. Called_tx m p) pre))
   \<and> (monitors c = pre @ bad # post \<and> (\<forall>m \<in> set pre. serves_rx m p)
        \<and> construct_raises bad = None \<and> isinstance_PacketMonitor bad
        \<and> rx_raises bad p = Some e \<longrightarrow>
        PacketCollector_rx c p tr
          = Inl (e, tr @ map (\<lambda>m. Called_rx m p) (pre @ [bad])))
   \<and> (monitors c = pre @ bad # post \<and> (\<forall>m \<in> set pre. serves_tx m p)
        \<and> construct_raises bad = None \<and> isinstance_PacketMonitor bad
        \<and> tx_raises bad p = Some e \<longrightarrow>
        PacketCollector_tx c p tr
          = Inl (e, tr @ map (\<lambda>m. Called_tx m p) (pre @ [bad])))
   \<and> (monitors c = pre @ bad # post \<and> (\<forall>m \<in> set pre. serves_rx m p)
        \<and> construct_raises bad = Some e \<longrightarrow>
        PacketCollector_rx c p tr = Inl (e, tr @ map (\<lambda>m. Called_rx m p) pre))
   \<and> (monitors c = pre @ bad # post \<and> (\<forall>m \<in> set pre. serves_tx m p)
        \<and> construct_raises bad = Some e \<longrightarrow>
        PacketCollector_tx c p tr = Inl (e, tr @ map (\<lambda>m. Called_tx m p) pre))"
proof (intro conjI impI)
  show "monitors (foldl register PacketCollector_new ms) = ms"
    by (simp add: monitors_foldl_register PacketCollector_new_def)
next
  assume "\<forall>m \<in> set (monitors c). serves_rx m p"
  then show "PacketCollector_rx c p tr = Inr (tr @ map (\<lambda>m. Called_rx m p) (monitors c))"
    using rx_loop_served [of "monitors c" p "[]" tr] by (simp add: PacketCollector_rx_def)
next
  assume "\<forall>m \<in> set (monitors c). serves_tx m p"
  then show "PacketCollector_tx c p tr = Inr (tr @ map (\<lambda>m. Called_tx m p) (monitors c))"
    using tx_loop_served [of "monitors c" p "[]" tr] by (simp add: PacketCollector_tx_def)
next
  assume "monitors c = pre @ bad # post \<and> (\<forall>m \<in> set pre. serves_rx m p)
        \<and> construct_raises bad = None \<and> \<not> isinstance_PacketMonitor bad"
  then show "PacketCollector_rx c p tr
          = Inl (not_a_monitor bad, tr @ map (\<lambda>m. Called_rx m p) pre)"
    using rx_loop_served [of pre p "bad # post" tr] by (simp add: PacketCollector_rx_def)
next
  assume "monitors c = pre @ bad # post \<and> (\<forall>m \<in> set pre. serves_tx m p)
        \<and> construct_raises bad = None \<and> \<not> isinstance_PacketMonitor bad"
  then show "PacketCollector_tx c p tr
          = Inl (not_a_monitor bad, tr @ map (\<lambda>m. Called_tx m p) pre)"
    using tx_loop_served [of pre p "bad # post" tr] by (simp add: PacketCollector_tx_def)
next
  assume "monitors c = pre @ bad # post \<and> (\<forall>m \<in> set pre. serves_rx m p)
        \<and> construct_raises bad = None \<and> isinstance_PacketMonitor bad
        \<and> rx_raises bad p = Some e"
  then show "PacketCollector_rx c p tr
          = Inl (e, tr @ map (\<lambda>m. Called_rx m p) (pre @ [bad]))"
    using rx_loop_served [of pre p "bad # post" tr] by (simp add: PacketCollector_rx_def)
next
  assume "monitors c = pre @ bad # post \<and> (\<forall>m \<in> set pre. serves_tx m p)
        \<and> construct_raises bad = None \<and> isinstance_PacketMonitor bad
        \<and> tx_raises bad p = Some e"
  then show "PacketCollector_tx c p tr
          = Inl (e, tr @ map (\<lambda>m. Called_tx m p) (pre @ [bad]))"
    using tx_loop_served [of pre p "bad # post" tr] by (simp add: PacketCollector_tx_def)
next
  assume "monitors c = pre @ bad # post \<and> (\<forall>m \<in> set pre. serves_rx m p)
        \<and> construct_raises bad = Some e"
  then show "PacketCollector_rx c p tr = Inl (e, tr @ map (\<lambda>m. Called_rx m p) pre)"
    using rx_loop_served [of pre p "bad # post" tr] by (simp add: PacketCollector_rx_def)
next
  assume "monitors c = pre @ bad # post \<and> (\<forall>m \<in> set pre. serves_tx m p)
        \<and> construct_raises bad = Some e"
  then show "PacketCollector_tx c p tr = Inl (e, tr @ map (\<lambda>m. Called_tx m p) pre)"
    using tx_loop_served [of pre p "bad # post" tr] by (simp add: PacketCollector_tx_def)
qed

theorem collector_dispatch_witness:
  "serves_rx (sample_monitor ''PacketTrack'') 3 \<and> serves_rx (sample_monitor ''PacketList'') 3
   \<and> serves_tx (sample_monitor ''PacketTrack'') 3 \<and> serves_tx (sample_monitor ''PacketList'') 3
   \<and> PacketCollector_rx (foldl register PacketCollector_new
         [sample_monitor ''PacketTrack'', sample_monitor ''PacketList'']) 3 []
       = Inr [Called_rx (sample_monitor ''PacketTrack'') 3,
              Called_rx (sample_monitor ''PacketList'') 3]
   \<and> PacketCollector_tx (foldl register PacketCollector_new
         [sample_monitor ''PacketTrack'', sample_monitor ''PacketList'']) 3 []
       = Inr [Called_tx (sample_monitor ''PacketTrack'') 3,
              Called_tx (sample_monitor ''PacketList'') 3]
   \<and> construct_raises sample_broken = None \<and> \<not> isinstance_PacketMonitor sample_broken
   \<and> PacketCollector_rx (foldl register PacketCollector_new
         [sample_monitor ''PacketTrack'', sample_broken, sample_monitor ''PacketList'']) 3 []
       = Inl (TypeError ''Monitor Broken is not a PacketMonitor'',
              [Called_rx (sample_monitor ''PacketTrack'') 3])
   \<and> PacketCollector_tx (foldl register PacketCollector_new
         [sample_monitor ''PacketTrack'', sample_broken, sample_monitor ''PacketList'']) 3 []
       = Inl (TypeError ''Monitor Broken is not a PacketMonitor'',
              [Called_tx (sample_monitor ''PacketTrack'') 3])
   \<and> construct_raises sample_raising = None \<and> isinstance_PacketMonitor sample_raising
   \<and> rx_raises sample_raising 3 = Some KeyError \<and> tx_raises sample_raising 3 = Some KeyError
   \<and> PacketCollector_rx (foldl register PacketCollector_new
         [sample_monitor ''PacketTrack'', sample_raising, sample_monitor ''PacketList'']) 3 []
       = Inl (KeyError, [Called_rx (sample_monitor ''PacketTrack'') 3,
                         Called_rx sample_raising 3])
   \<and> PacketCollector_tx (foldl register PacketCollector_new
         [sample_monitor ''PacketTrack'', sample_raising, sample_monitor ''PacketList'']) 3 []
       = Inl (KeyError, [Called_tx (sample_monitor ''PacketTrack'') 3,
                         Called_tx sample_raising 3])
   \<and> construct_raises sample_unbuilt = Some (OtherError ''RuntimeError'')
   \<and> PacketCollector_rx (foldl register PacketCollector_new
         [sample_monitor ''PacketTrack'', sample_unbuilt, sample_monitor ''PacketList'']) 3 []
       = Inl (OtherError ''RuntimeError'', [Called_rx (sample_monitor ''PacketTrack'') 3])
   \<and> PacketCollector_tx (foldl register PacketCollector_new
         [sample_monitor ''PacketTrack'', sample_unbuilt, sample_monitor ''PacketList'']) 3 []
       = Inl (OtherError ''RuntimeError'', [Called_tx (sample_monitor ''PacketTrack'') 3])"
proof -
  let ?m1 = "sample_monitor ''PacketTrack''" and ?m2 = "sample_monitor ''PacketList''"
  let ?ok = "foldl register PacketCollector_new [?m1, ?m2]"
  let ?bad = "foldl register PacketCollector_new [?m1, sample_broken, ?m2]"
  let ?rai = "foldl register PacketCollector_new [?m1, sample_raising, ?m2]"
  let ?unb = "foldl register PacketCollector_new [?m1, sample_unbuilt, ?m2]"
  have good: "serves_rx ?m1 3" "serves_rx ?m2 3" "serves_tx ?m1 3" "serves_tx ?m2 3"
    by (simp_all add: serves_rx_def serves_tx_def isinstance_PacketMonitor_def sample_monitor_def)
  have broken: "construct_raises sample_broken = None" "\<not> isinstance_PacketMonitor sample_broken"
    by (simp_all add: isinstance_PacketMonitor_def sample_broken_def)
  have name: "not_a_monitor sample_broken = TypeError ''Monitor Broken is not a PacketMonitor''"
    by (simp add: not_a_monitor_def sample_broken_def)
  have raising: "construct_raises sample_raising = None" "isinstance_PacketMonitor sample_raising"
    "rx_raises sample_raising 3 = Some KeyError" "tx_raises sample_raising 3 = Some KeyError"
    by (simp_all add: isinstance_PacketMonitor_def sample_raising_def)
  have unbuilt: "construct_raises sample_unbuilt = Some (OtherError ''RuntimeError'')"
    by (simp add: sample_unbuilt_def)
  have reg: "monitors ?ok = [?m1, ?m2]"
    using collector_dispatch [where ms = "[?m1, ?m2]"] by blast
  have all_rx: "\<forall>m \<in> set (monitors ?ok). serves_rx m 3" unfolding reg using good by simp
  have all_tx: "\<forall>m \<in> set (monitors ?ok). serves_tx m 3" unfolding reg using good by simp
  have "PacketCollector_rx ?ok 3 [] = Inr ([] @ map (\<lambda>m. Called_rx m 3) (monitors ?ok))"
    using collector_dispatch [where c = ?ok and p = 3 and tr = "[]"] all_rx by blast
  then have r1: "PacketCollector_rx ?ok 3 [] = Inr [Called_rx ?m1 3, Called_rx ?m2 3]"
    unfolding reg by simp
  have "PacketCollector_tx ?ok 3 [] = Inr ([] @ map (\<lambda>m. Called_tx m 3) (monitors ?ok))"
    using collector_dispatch [where c = ?ok and p = 3 and tr = "[]"] all_tx by blast
  then have t1: "PacketCollector_tx ?ok 3 [] = Inr [Called_tx ?m1 3, Called_tx ?m2 3]"
    unfolding reg by simp
  have pre_rx: "\<forall>m \<in> set [?m1]. serves_rx m 3" using good by simp
  have pre_tx: "\<forall>m \<in> set [?m1]. serves_tx m 3" using good by simp
  have "monitors ?bad = [?m1, sample_broken, ?m2]"
    using collector_dispatch [where ms = "[?m1, sample_broken, ?m2]"] by blast
  then have reg_bad: "monitors ?bad = [?m1] @ sample_broken # [?m2]" by simp
  have "PacketCollector_rx ?bad 3 []
          = Inl (not_a_monitor sample_broken, [] @ map (\<lambda>m. Called_rx m 3) [?m1])"
    using collector_dispatch [where c = ?bad and p = 3 and tr = "[]" and pre = "[?m1]"
        and bad = sample_broken and post = "[?m2]"]
      reg_bad pre_rx broken by blast
  then have r2: "PacketCollector_rx ?bad 3 []
          = Inl (TypeError ''Monitor Broken is not a PacketMonitor'', [Called_rx ?m1 3])"
    by (simp add: name)
  have "PacketCollector_tx ?bad 3 []
          = Inl (not_a_monitor sample_broken, [] @ map (\<lambda>m. Called_tx m 3) [?m1])"
    using collector_dispatch [where c = ?bad and p = 3 and tr = "[]" and pre = "[?m1]"
        and bad = sample_broken and post = "[?m2]"]
      reg_bad pre_tx broken by blast
  then have t2: "PacketCollector_tx ?bad 3 []
          = Inl (TypeError ''Monitor Broken is not a PacketMonitor'', [Called_tx ?m1 3])"
    by (simp add: name)
  have "monitors ?rai = [?m1, sample_raising, ?m2]"
    using collector_dispatch [where ms = "[?m1, sample_raising, ?m2]"] by blast
  then have reg_rai: "monitors ?rai = [?m1] @ sample_raising # [?m2]" by simp
  have "PacketCollector_rx ?rai 3 []
          = Inl (KeyError, [] @ map (\<lambda>m. Called_rx m 3) ([?m1] @ [sample_raising]))"
    using collector_dispatch [where c = ?rai and p = 3 and tr = "[]" and pre = "[?m1]"
        and bad = sample_raising and post = "[?m2]" and e = KeyError]
      reg_rai pre_rx raising by blast
  then have r3: "PacketCollector_rx ?rai 3 []
          = Inl (KeyError, [Called_rx ?m1 3, Called_rx sample_raising 3])"
    by simp
  have "PacketCollector_tx ?rai 3 []
          = Inl (KeyError, [] @ map (\<lambda>m. Called_tx m 3) ([?m1] @ [sample_raising]))"
    using collector_dispatch [where c = ?rai and p = 3 and tr = "[]" and pre = "[?m1]"
        and bad = sample_raising and post = "[?m2]" and e = KeyError]
      reg_rai pre_tx raising by blast
  then have t3: "PacketCollector_tx ?rai 3 []
          = Inl (KeyError, [Called_tx ?m1 3, Called_tx sample_raising 3])"
    by simp
  have "monitors ?unb = [?m1, sample_unbuilt, ?m2]"
    using collector_dispatch [where ms = "[?m1, sample_unbuilt, ?m2]"] by blast
  then have reg_unb: "monitors ?unb = [?m1] @ sample_unbuilt # [?m2]" by simp
  have "PacketCollector_rx ?unb 3 []
          = Inl (OtherError ''RuntimeError'', [] @ map (\<lambda>m. Called_rx m 3) [?m1])"
    using collector_dispatch [where c = ?unb and p = 3 and tr = "[]" and pre = "[?m1]"
        and bad = sample_unbuilt and post = "[?m2]" and e = "OtherError ''RuntimeError''"]
      reg_unb pre_rx unbuilt by blast
  then have r4: "PacketCollector_rx ?unb 3 []
          = Inl (OtherError ''RuntimeError'', [Called_rx ?m1 3])"
    by simp
  have "PacketCollector_tx ?unb 3 []
          = Inl (OtherError ''RuntimeError'', [] @ map (\<lambda>m. Called_tx m 3) [?m1])"
    using collector_dispatch [where c = ?unb and p = 3 and tr = "[]" and pre = "[?m1]"
        and bad = sample_unbuilt and post = "[?m2]" and e = "OtherError ''RuntimeError''"]
      reg_unb pre_tx unbuilt by blast
  then have t4: "PacketCollector_tx ?unb 3 []
          = Inl (OtherError ''RuntimeError'', [Called_tx ?m1 3])"
    by simp
  from good r1 t1 broken r2 t2 raising r3 t3 unbuilt r4 t4 show ?thesis by simp
qed

text \<open>
  C5 without the proviso fails: with two registered monitors that both have \<^verbatim>\<open>rx\<close> and
  \<^verbatim>\<open>tx\<close>, the first of which raises \<^verbatim>\<open>KeyError\<close> in \<^verbatim>\<open>rx\<close>, the collector's
  \<^verbatim>\<open>rx\<close> raises that error after the first call, and the second monitor, compliant
  though it is, is never called.
\<close>

theorem collector_dispatch_counterexample:
  "isinstance_PacketMonitor sample_raising
   \<and> isinstance_PacketMonitor (sample_monitor ''PacketTrack'')
   \<and> PacketCollector_rx
        (foldl register PacketCollector_new [sample_raising, sample_monitor ''PacketTrack''])
        3 []
       = Inl (KeyError, [Called_rx sample_raising 3])
   \<and> \<not> (\<forall>c p tr. list_all isinstance_PacketMonitor (monitors c) \<longrightarrow>
           PacketCollector_rx c p tr = Inr (tr @ map (\<lambda>m. Called_rx m p) (monitors c)))"
proof -
  let ?c = "foldl register PacketCollector_new [sample_raising, sample_monitor ''PacketTrack'']"
  have a: "isinstance_PacketMonitor sample_raising"
    "isinstance_PacketMonitor (sample_monitor ''PacketTrack'')"
    by (simp_all add: isinstance_PacketMonitor_def sample_raising_def sample_monitor_def)
  have ms: "monitors ?c = [sample_raising, sample_monitor ''PacketTrack'']"
    by (simp add: register_def PacketCollector_new_def)
  have r: "construct_raises sample_raising = None" "rx_raises sample_raising 3 = Some KeyError"
    by (simp_all add: sample_raising_def)
  have b: "PacketCollector_rx ?c 3 [] = Inl (KeyError, [Called_rx sample_raising 3])"
    unfolding PacketCollector_rx_def ms using a r by simp
  have all: "list_all isinstance_PacketMonitor (monitors ?c)"
    unfolding ms using a by simp
  have "\<not> (\<forall>c p tr. list_all isinstance_PacketMonitor (monitors c) \<longrightarrow>
           PacketCollector_rx c p tr = Inr (tr @ map (\<lambda>m. Called_rx m p) (monitors c)))"
  proof
    assume "\<forall>c p tr. list_all isinstance_PacketMonitor (monitors c) \<longrightarrow>
           PacketCollector_rx c p tr = Inr (tr @ map (\<lambda>m. Called_rx m p) (monitors c))"
    with all have "PacketCollector_rx ?c 3 [] = Inr ([] @ map (\<lambda>m. Called_rx m 3) (monitors ?c))"
      by blast
    with b show False by simp
  qed
  with a b show ?thesis by blast
qed

end
